theory Spec2Isabelle
  imports Complex_Main "HOL-Library.Log_Nat" "HOL-Library.Word"
begin

section \<open>Python and numpy values\<close>

text \<open>
  The model follows \<^verbatim>\<open>src/image_processor.py\<close> (class \<^verbatim>\<open>RetroImageProcessor\<close>).
  Every exception the modelled code can raise is a value: a function that can raise returns
  \<open>error + 'a\<close>, with \<open>Inl\<close> for the exception.
\<close>

datatype error = IndexError | ZeroDivisionError | ValueError

definition bind_err :: "error + 'a \<Rightarrow> ('a \<Rightarrow> error + 'b) \<Rightarrow> error + 'b" where
  "bind_err m f = (case m of Inl e \<Rightarrow> Inl e | Inr v \<Rightarrow> f v)"

text \<open>A \<^verbatim>\<open>for\<close> loop over a list of indices, threading the mutated state; an exception
  in the body ends the loop.\<close>

fun for_each :: "'i list \<Rightarrow> ('i \<Rightarrow> 's \<Rightarrow> error + 's) \<Rightarrow> 's \<Rightarrow> error + 's" where
  "for_each [] body s = Inr s"
| "for_each (i # is) body s =
     (case body i s of Inl e \<Rightarrow> Inl e | Inr s' \<Rightarrow> for_each is body s')"

definition py_range :: "nat \<Rightarrow> int list" where
  "py_range n = map int [0..<n]"

subsection \<open>Binary64 arithmetic\<close>

text \<open>
  A \<^verbatim>\<open>float64\<close> is modelled by the rational number it denotes. Every arithmetic operation
  computes the exact result and rounds it to the nearest number with a 53-bit significand,
  ties to even (\<open>fl\<close>). The exponent range is not bounded: infinities, NaN and subnormal
  numbers are not modelled. The values of this program stay far inside the normal range as
  long as image sizes, target widths and palette channels fit in 64-bit integers, which is
  the scope of the model.
\<close>

type_synonym float64 = rat

definition round_half_even :: "rat \<Rightarrow> int" where
  "round_half_even q =
     (let n = \<lfloor>q\<rfloor>; r = q - of_int n
      in if r < 1 / 2 then n else if 1 / 2 < r then n + 1 else if even n then n else n + 1)"

text \<open>\<open>exponent2 q\<close> is the \<open>e\<close> with \<open>2 ^ e \<le> \<bar>q\<bar> < 2 ^ (e + 1)\<close>, for \<open>q \<noteq> 0\<close>.\<close>

definition exponent2 :: "rat \<Rightarrow> int" where
  "exponent2 q =
     (case quotient_of \<bar>q\<bar> of (a, b) \<Rightarrow>
        let e = bitlen a - bitlen b in if power_int 2 e \<le> \<bar>q\<bar> then e else e - 1)"

definition fl :: "rat \<Rightarrow> float64" where
  "fl q = (if q = 0 then 0
           else let u = power_int 2 (exponent2 q - 52) in of_int (round_half_even (q / u)) * u)"

definition fadd :: "float64 \<Rightarrow> float64 \<Rightarrow> float64" where "fadd a b = fl (a + b)"
definition fsub :: "float64 \<Rightarrow> float64 \<Rightarrow> float64" where "fsub a b = fl (a - b)"
definition fmul :: "float64 \<Rightarrow> float64 \<Rightarrow> float64" where "fmul a b = fl (a * b)"
definition fdiv :: "float64 \<Rightarrow> float64 \<Rightarrow> float64" where "fdiv a b = fl (a / b)"

text \<open>The numbers \<open>a / 2 ^ k\<close> in lowest terms with \<open>\<bar>a\<bar> < 2 ^ 53\<close>, which rounding keeps.\<close>

definition representable :: "rat \<Rightarrow> bool" where
  "representable q =
     (case quotient_of q of (a, b) \<Rightarrow> \<bar>a\<bar> < 2 ^ 53 \<and> b = 2 ^ nat (bitlen b - 1))"

text \<open>\<^verbatim>\<open>float(n)\<close> of a Python int, and \<^verbatim>\<open>int(v)\<close> of a float (truncation toward zero).\<close>

definition float_of_int :: "int \<Rightarrow> float64" where
  "float_of_int n = fl (of_int n)"

definition py_int :: "float64 \<Rightarrow> int" where
  "py_int v = (if 0 \<le> v then \<lfloor>v\<rfloor> else \<lceil>v\<rceil>)"

text \<open>\<^verbatim>\<open>a / b\<close> on Python ints: the correctly rounded quotient, or ZeroDivisionError.\<close>

definition true_div :: "int \<Rightarrow> int \<Rightarrow> error + float64" where
  "true_div a b = (if b = 0 then Inl ZeroDivisionError else Inr (fl (of_int a / of_int b)))"

subsection \<open>Colors, pixels, arrays and images\<close>

text \<open>
  A palette entry is a Python tuple of three ints. A pixel of the working array is a numpy
  vector of three \<^verbatim>\<open>float64\<close>. A pixel of a PIL image in mode RGB is three \<^verbatim>\<open>uint8\<close>.
\<close>

type_synonym color = "int \<times> int \<times> int"
type_synonym pixel = "float64 \<times> float64 \<times> float64"
type_synonym rgb = "8 word \<times> 8 word \<times> 8 word"

text \<open>An array of shape \<open>(nrows, ncols, 3)\<close>: \<open>cells a ! y ! x\<close> is \<^verbatim>\<open>a[y, x]\<close>.\<close>

record 'a ndarray =
  nrows :: nat
  ncols :: nat
  cells :: "'a list list"

record image =
  width :: nat
  height :: nat
  pixels :: "rgb list list"

definition wf_cells :: "nat \<Rightarrow> nat \<Rightarrow> 'a list list \<Rightarrow> bool" where
  "wf_cells h w rows = (length rows = h \<and> list_all (\<lambda>r. length r = w) rows)"

definition wf_array :: "'a ndarray \<Rightarrow> bool" where
  "wf_array a = wf_cells (nrows a) (ncols a) (cells a)"

definition wf_image :: "image \<Rightarrow> bool" where
  "wf_image im = wf_cells (height im) (width im) (pixels im)"

text \<open>Elementwise numpy arithmetic on three-channel vectors.\<close>

fun vsub :: "pixel \<Rightarrow> pixel \<Rightarrow> pixel" where
  "vsub (a, b, c) (x, y, z) = (fsub a x, fsub b y, fsub c z)"

fun vadd :: "pixel \<Rightarrow> pixel \<Rightarrow> pixel" where
  "vadd (a, b, c) (x, y, z) = (fadd a x, fadd b y, fadd c z)"

fun vadd_scalar :: "pixel \<Rightarrow> float64 \<Rightarrow> pixel" where
  "vadd_scalar (a, b, c) s = (fadd a s, fadd b s, fadd c s)"

fun vmul_scalar :: "pixel \<Rightarrow> float64 \<Rightarrow> pixel" where
  "vmul_scalar (a, b, c) s = (fmul a s, fmul b s, fmul c s)"

fun vdiv_scalar :: "pixel \<Rightarrow> float64 \<Rightarrow> pixel" where
  "vdiv_scalar (a, b, c) s = (fdiv a s, fdiv b s, fdiv c s)"

fun vsquare :: "pixel \<Rightarrow> pixel" where
  "vsquare (a, b, c) = (fmul a a, fmul b b, fmul c c)"

fun np_sum :: "pixel \<Rightarrow> float64" where
  "np_sum (a, b, c) = fadd (fadd a b) c"

definition clip :: "float64 \<Rightarrow> float64 \<Rightarrow> float64 \<Rightarrow> float64" where
  "clip v lo hi = min (max v lo) hi"

fun vclip :: "pixel \<Rightarrow> float64 \<Rightarrow> float64 \<Rightarrow> pixel" where
  "vclip (a, b, c) lo hi = (clip a lo hi, clip b lo hi, clip c lo hi)"

text \<open>\<^verbatim>\<open>np.array(color)\<close> (an int64 vector) and \<^verbatim>\<open>np.array(color, dtype=np.float64)\<close>
  enter float arithmetic by the same conversion.\<close>

fun color_array :: "color \<Rightarrow> pixel" where
  "color_array (r, g, b) = (float_of_int r, float_of_int g, float_of_int b)"

text \<open>Integer indexing of one axis of length \<open>n\<close>: a negative index counts from the end,
  anything outside \<open>[-n, n)\<close> raises.\<close>

definition index_of :: "nat \<Rightarrow> int \<Rightarrow> error + nat" where
  "index_of n i =
     (if 0 \<le> i \<and> i < int n then Inr (nat i)
      else if - int n \<le> i \<and> i < 0 then Inr (nat (i + int n))
      else Inl IndexError)"

definition getitem :: "'a ndarray \<Rightarrow> int \<Rightarrow> int \<Rightarrow> error + 'a" where
  "getitem a y x =
     bind_err (index_of (nrows a) y) (\<lambda>j.
     bind_err (index_of (ncols a) x) (\<lambda>i.
     Inr (cells a ! j ! i)))"

definition setitem :: "'a ndarray \<Rightarrow> int \<Rightarrow> int \<Rightarrow> 'a \<Rightarrow> error + 'a ndarray" where
  "setitem a y x v =
     bind_err (index_of (nrows a) y) (\<lambda>j.
     bind_err (index_of (ncols a) x) (\<lambda>i.
     Inr (a\<lparr>cells := (cells a)[j := (cells a ! j)[i := v]]\<rparr>)))"

text \<open>\<^verbatim>\<open>a[y, x] += d\<close>.\<close>

definition iadd :: "pixel ndarray \<Rightarrow> int \<Rightarrow> int \<Rightarrow> pixel \<Rightarrow> error + pixel ndarray" where
  "iadd a y x d = bind_err (getitem a y x) (\<lambda>v. setitem a y x (vadd v d))"

text \<open>\<^verbatim>\<open>np.array(image, dtype=np.float64)\<close>, \<^verbatim>\<open>np.clip(a, lo, hi)\<close>,
  \<^verbatim>\<open>a.astype(np.uint8)\<close> and \<^verbatim>\<open>Image.fromarray(a, 'RGB')\<close>.\<close>

fun rgb_to_float :: "rgb \<Rightarrow> pixel" where
  "rgb_to_float (r, g, b) = (of_int (uint r), of_int (uint g), of_int (uint b))"

definition np_array :: "image \<Rightarrow> pixel ndarray" where
  "np_array im =
     \<lparr>nrows = height im, ncols = width im, cells = map (map rgb_to_float) (pixels im)\<rparr>"

definition np_clip :: "pixel ndarray \<Rightarrow> float64 \<Rightarrow> float64 \<Rightarrow> pixel ndarray" where
  "np_clip a lo hi = a\<lparr>cells := map (map (\<lambda>p. vclip p lo hi)) (cells a)\<rparr>"

fun pixel_to_uint8 :: "pixel \<Rightarrow> rgb" where
  "pixel_to_uint8 (a, b, c) =
     (word_of_int (py_int a), word_of_int (py_int b), word_of_int (py_int c))"

definition astype_uint8 :: "pixel ndarray \<Rightarrow> rgb ndarray" where
  "astype_uint8 a =
     \<lparr>nrows = nrows a, ncols = ncols a, cells = map (map pixel_to_uint8) (cells a)\<rparr>"

definition fromarray :: "rgb ndarray \<Rightarrow> image" where
  "fromarray a = \<lparr>width = ncols a, height = nrows a, pixels = cells a\<rparr>"

section \<open>The palettes\<close>

definition GAMEBOY_PALETTE :: "color list" where
  "GAMEBOY_PALETTE = [(15, 56, 15), (48, 98, 48), (139, 172, 15), (155, 188, 15)]"

definition DOT_MATRIX_PALETTE :: "color list" where
  "DOT_MATRIX_PALETTE = [(0, 0, 0), (255, 255, 255)]"

definition CGA_PALETTE :: "color list" where
  "CGA_PALETTE =
     [(0, 0, 0), (0, 0, 170), (0, 170, 0), (0, 170, 170),
      (170, 0, 0), (170, 0, 170), (170, 85, 0), (170, 170, 170),
      (85, 85, 85), (85, 85, 255), (85, 255, 85), (85, 255, 255),
      (255, 85, 85), (255, 85, 255), (255, 255, 85), (255, 255, 255)]"

definition APPLE_II_PALETTE :: "color list" where
  "APPLE_II_PALETTE =
     [(0, 0, 0), (114, 38, 64), (64, 51, 127), (228, 52, 254),
      (14, 89, 64), (128, 128, 128), (27, 154, 254), (191, 179, 255),
      (64, 76, 0), (228, 101, 1), (128, 128, 128), (241, 166, 191),
      (27, 203, 1), (191, 204, 128), (141, 217, 191), (255, 255, 255)]"

definition C64_PALETTE :: "color list" where
  "C64_PALETTE =
     [(0, 0, 0), (255, 255, 255), (136, 0, 0), (170, 255, 238),
      (204, 68, 204), (0, 204, 85), (0, 0, 170), (238, 238, 119),
      (221, 136, 85), (102, 68, 0), (255, 119, 119), (51, 51, 51),
      (119, 119, 119), (170, 255, 102), (0, 136, 255), (187, 187, 187)]"

definition ZX_SPECTRUM_PALETTE :: "color list" where
  "ZX_SPECTRUM_PALETTE =
     [(0, 0, 0), (0, 0, 192), (192, 0, 0), (192, 0, 192),
      (0, 192, 0), (0, 192, 192), (192, 192, 0), (192, 192, 192),
      (0, 0, 0), (0, 0, 255), (255, 0, 0), (255, 0, 255),
      (0, 255, 0), (0, 255, 255), (255, 255, 0), (255, 255, 255)]"

text \<open>\<^verbatim>\<open>np.array([[0, 8, 2, 10], ...]) / 16.0\<close>, set in \<^verbatim>\<open>__init__\<close>.\<close>

definition bayer_matrix_4x4 :: "float64 list list" where
  "bayer_matrix_4x4 =
     map (map (\<lambda>k. fdiv (float_of_int k) 16))
       [[0, 8, 2, 10], [12, 4, 14, 6], [3, 11, 1, 9], [15, 7, 13, 5]]"

section \<open>Color matching\<close>

text \<open>
  \<^verbatim>\<open>_find_closest_color\<close>. \<open>min_distance\<close> starts as \<^verbatim>\<open>float('inf')\<close>, the value \<open>None\<close>
  here, below which every distance lies. \<^verbatim>\<open>palette[0]\<close> raises IndexError on an empty
  palette.
\<close>

fun less_than_min :: "float64 \<Rightarrow> float64 option \<Rightarrow> bool" where
  "less_than_min d None = True"
| "less_than_min d (Some m) = (d < m)"

definition color_distance :: "pixel \<Rightarrow> color \<Rightarrow> float64" where
  "color_distance pixel color = np_sum (vsquare (vsub pixel (color_array color)))"

fun closest_step :: "pixel \<Rightarrow> float64 option \<times> color \<Rightarrow> color \<Rightarrow> float64 option \<times> color" where
  "closest_step pixel (min_distance, closest_color) color =
     (let distance = color_distance pixel color
      in if less_than_min distance min_distance then (Some distance, color)
         else (min_distance, closest_color))"

definition find_closest_color :: "pixel \<Rightarrow> color list \<Rightarrow> error + pixel" where
  "find_closest_color pixel palette =
     (case palette of
        [] \<Rightarrow> Inl IndexError
      | c0 # _ \<Rightarrow> Inr (color_array (snd (foldl (closest_step pixel) (None, c0) palette))))"

section \<open>Floyd-Steinberg dithering\<close>

text \<open>
  The body of the two loops of \<^verbatim>\<open>floyd_steinberg_dither\<close> at \<open>(x, y)\<close>; \<open>h\<close> and \<open>w\<close>
  are the locals \<^verbatim>\<open>height\<close> and \<open>width\<close>.
  \<^verbatim>\<open>old_pixel = img_array[y, x]\<close> indexes a three-dimensional array with two integers: numpy
  returns a view of the three channels, not a copy. \<^verbatim>\<open>_find_closest_color\<close> reads the view
  before the store \<^verbatim>\<open>img_array[y, x] = new_pixel\<close>; the line
  \<^verbatim>\<open>error = old_pixel - new_pixel\<close> reads it after the store, so it reads the cell again.
\<close>

definition fs_weighted :: "pixel \<Rightarrow> float64 \<Rightarrow> pixel" where
  "fs_weighted err k = vdiv_scalar (vmul_scalar err k) 16"

definition floyd_steinberg_body ::
  "color list \<Rightarrow> int \<Rightarrow> int \<Rightarrow> int \<Rightarrow> int \<Rightarrow> pixel ndarray \<Rightarrow> error + pixel ndarray" where
  "floyd_steinberg_body palette h w y x img_array =
     bind_err (getitem img_array y x) (\<lambda>old_pixel_before.
     bind_err (find_closest_color old_pixel_before palette) (\<lambda>new_pixel.
     bind_err (setitem img_array y x new_pixel) (\<lambda>a1.
     bind_err (getitem a1 y x) (\<lambda>old_pixel.
     let err = vsub old_pixel new_pixel in
     bind_err (if x + 1 < w then iadd a1 y (x + 1) (fs_weighted err 7) else Inr a1) (\<lambda>a2.
     if y + 1 < h then
       bind_err (if x - 1 \<ge> 0 then iadd a2 (y + 1) (x - 1) (fs_weighted err 3) else Inr a2) (\<lambda>a3.
       bind_err (iadd a3 (y + 1) x (fs_weighted err 5)) (\<lambda>a4.
       if x + 1 < w then iadd a4 (y + 1) (x + 1) (fs_weighted err 1) else Inr a4))
     else Inr a2)))))"

text \<open>The image is taken in mode RGB, where \<^verbatim>\<open>image.convert('RGB')\<close> is skipped.\<close>

definition to_image :: "pixel ndarray \<Rightarrow> image" where
  "to_image img_array = fromarray (astype_uint8 (np_clip img_array 0 255))"

definition floyd_steinberg_dither :: "image \<Rightarrow> color list \<Rightarrow> error + image" where
  "floyd_steinberg_dither img palette =
     (let img_array = np_array img;
          h = nrows img_array;
          w = ncols img_array
      in bind_err
           (for_each (py_range h) (\<lambda>y.
              for_each (py_range w) (\<lambda>x.
                floyd_steinberg_body palette (int h) (int w) y x)) img_array)
           (\<lambda>img_array. Inr (to_image img_array)))"

section \<open>Bayer dithering\<close>

definition bayer_body :: "color list \<Rightarrow> int \<Rightarrow> int \<Rightarrow> pixel ndarray \<Rightarrow> error + pixel ndarray" where
  "bayer_body palette y x img_array =
     (let threshold = fmul (bayer_matrix_4x4 ! nat (y mod 4) ! nat (x mod 4)) 255
      in bind_err (getitem img_array y x) (\<lambda>pixel.
         let pixel_with_noise = vadd_scalar pixel (fsub threshold (255 / 2));
             pixel_with_noise = vclip pixel_with_noise 0 255
         in bind_err (find_closest_color pixel_with_noise palette) (\<lambda>new_pixel.
            setitem img_array y x new_pixel)))"

definition bayer_dither :: "image \<Rightarrow> color list \<Rightarrow> error + image" where
  "bayer_dither img palette =
     (let img_array = np_array img
      in bind_err
           (for_each (py_range (nrows img_array)) (\<lambda>y.
              for_each (py_range (ncols img_array)) (\<lambda>x.
                bayer_body palette y x)) img_array)
           (\<lambda>img_array. Inr (to_image img_array)))"

definition ordered_dither :: "image \<Rightarrow> color list \<Rightarrow> int \<Rightarrow> error + image" where
  "ordered_dither img palette matrix_size = bayer_dither img palette"

section \<open>Resizing and the presets\<close>

text \<open>
  Resampling (\<^verbatim>\<open>Image.resize\<close> with the Lanczos filter) and contrast enhancement
  (\<^verbatim>\<open>ImageEnhance.Contrast\<close>) belong to PIL. They are parameters of the model: a record of
  the two collaborators, each of which may raise.
\<close>

record pil =
  pil_resize :: "image \<Rightarrow> int \<times> int \<Rightarrow> error + image"
  pil_enhance :: "image \<Rightarrow> float64 \<Rightarrow> error + image"

text \<open>
  \<^verbatim>\<open>resize_image\<close>: first the target height (the \<^verbatim>\<open>if target_height is None\<close> block),
  then the call of the collaborator with \<^verbatim>\<open>(target_width, target_height)\<close>.
\<close>

definition resize_target_height :: "image \<Rightarrow> int \<Rightarrow> int option \<Rightarrow> bool \<Rightarrow> error + int" where
  "resize_target_height img target_width target_height maintain_aspect =
     (case target_height of
        None \<Rightarrow>
          if maintain_aspect then
            bind_err (true_div (int (height img)) (int (width img))) (\<lambda>aspect_ratio.
            Inr (py_int (fmul (float_of_int target_width) aspect_ratio)))
          else Inr target_width
      | Some th \<Rightarrow> Inr th)"

definition resize_image :: "pil \<Rightarrow> image \<Rightarrow> int \<Rightarrow> int option \<Rightarrow> bool \<Rightarrow> error + image" where
  "resize_image ext img target_width target_height maintain_aspect =
     bind_err (resize_target_height img target_width target_height maintain_aspect) (\<lambda>th.
     pil_resize ext img (target_width, th))"

definition enhance_contrast :: "pil \<Rightarrow> image \<Rightarrow> float64 \<Rightarrow> error + image" where
  "enhance_contrast ext img factor = pil_enhance ext img factor"

definition convert_to_gameboy_camera :: "pil \<Rightarrow> image \<Rightarrow> string \<Rightarrow> float64 \<Rightarrow> error + image" where
  "convert_to_gameboy_camera ext img dither_method contrast_factor =
     bind_err (resize_image ext img 128 (Some 112) False) (\<lambda>resized.
     bind_err (enhance_contrast ext resized contrast_factor) (\<lambda>enhanced.
     if dither_method = ''floyd_steinberg'' then floyd_steinberg_dither enhanced GAMEBOY_PALETTE
     else if dither_method = ''bayer'' then bayer_dither enhanced GAMEBOY_PALETTE
     else ordered_dither enhanced GAMEBOY_PALETTE 4))"

definition convert_to_dot_matrix ::
  "pil \<Rightarrow> image \<Rightarrow> int \<Rightarrow> string \<Rightarrow> float64 \<Rightarrow> error + image" where
  "convert_to_dot_matrix ext img w dither_method contrast_factor =
     bind_err (resize_image ext img w None True) (\<lambda>resized.
     bind_err (enhance_contrast ext resized contrast_factor) (\<lambda>enhanced.
     if dither_method = ''floyd_steinberg'' then floyd_steinberg_dither enhanced DOT_MATRIX_PALETTE
     else if dither_method = ''bayer'' then bayer_dither enhanced DOT_MATRIX_PALETTE
     else ordered_dither enhanced DOT_MATRIX_PALETTE 4))"

text \<open>
  Palette names are taken as ASCII strings; \<^verbatim>\<open>str.lower\<close> then maps \<open>A\<close>..\<open>Z\<close> to
  \<open>a\<close>..\<open>z\<close> and keeps every other character. \<^verbatim>\<open>palette_map.get(name, default)\<close> is the
  lookup with a default.
\<close>

definition lower_char :: "char \<Rightarrow> char" where
  "lower_char c =
     (let n = (of_char c :: nat) in if 65 \<le> n \<and> n \<le> 90 then char_of (n + 32) else c)"

definition lower :: "string \<Rightarrow> string" where
  "lower s = map lower_char s"

definition palette_map :: "(string \<times> color list) list" where
  "palette_map =
     [(''cga'', CGA_PALETTE), (''apple2'', APPLE_II_PALETTE),
      (''c64'', C64_PALETTE), (''spectrum'', ZX_SPECTRUM_PALETTE)]"

definition dict_get :: "('k \<times> 'v) list \<Rightarrow> 'k \<Rightarrow> 'v \<Rightarrow> 'v" where
  "dict_get d k dflt = (case map_of d k of None \<Rightarrow> dflt | Some v \<Rightarrow> v)"

definition convert_to_retro_color ::
  "pil \<Rightarrow> image \<Rightarrow> int \<Rightarrow> string \<Rightarrow> string \<Rightarrow> float64 \<Rightarrow> error + image" where
  "convert_to_retro_color ext img w palette dither_method contrast_factor =
     (let color_palette = dict_get palette_map (lower palette) CGA_PALETTE
      in bind_err (resize_image ext img w None True) (\<lambda>resized.
         bind_err (enhance_contrast ext resized contrast_factor) (\<lambda>enhanced.
         if dither_method = ''floyd_steinberg'' then floyd_steinberg_dither enhanced color_palette
         else if dither_method = ''bayer'' then bayer_dither enhanced color_palette
         else ordered_dither enhanced color_palette 4)))"

section \<open>Predicates of the proofs\<close>

text \<open>
  \<open>first_min_at pixel cs i\<close>: entry \<open>i\<close> of \<open>cs\<close> has the least distance to \<open>pixel\<close>, and
  every entry before it is strictly farther. \<open>scan_inv\<close> is the invariant of the loop of
  \<^verbatim>\<open>_find_closest_color\<close> after the entries \<open>pre\<close>.
\<close>

definition first_min_at :: "pixel \<Rightarrow> color list \<Rightarrow> nat \<Rightarrow> bool" where
  "first_min_at pixel cs i =
     (i < length cs
      \<and> list_all (\<lambda>c. color_distance pixel (cs ! i) \<le> color_distance pixel c) cs
      \<and> list_all (\<lambda>c. color_distance pixel (cs ! i) < color_distance pixel c) (take i cs))"

definition scan_inv :: "pixel \<Rightarrow> color list \<Rightarrow> float64 option \<times> color \<Rightarrow> bool" where
  "scan_inv pixel pre s =
     (case fst s of
        None \<Rightarrow> pre = []
      | Some m \<Rightarrow>
          \<exists>i. first_min_at pixel pre i \<and> m = color_distance pixel (pre ! i) \<and> snd s = pre ! i)"

text \<open>
  \<open>cell a j i\<close> is the cell \<^verbatim>\<open>a[j, i]\<close> at natural indices and \<open>upd a j i v\<close> the array after
  a store there. \<open>keeps j i a a'\<close>: \<open>a'\<close> has the shape of \<open>a\<close> and the same cells up to and
  including \<open>(j, i)\<close> in raster order.
\<close>

definition cell :: "'a ndarray \<Rightarrow> nat \<Rightarrow> nat \<Rightarrow> 'a" where
  "cell a j i = cells a ! j ! i"

definition upd :: "'a ndarray \<Rightarrow> nat \<Rightarrow> nat \<Rightarrow> 'a \<Rightarrow> 'a ndarray" where
  "upd a j i v = a\<lparr>cells := (cells a)[j := (cells a ! j)[i := v]]\<rparr>"

definition keeps :: "nat \<Rightarrow> nat \<Rightarrow> 'a ndarray \<Rightarrow> 'a ndarray \<Rightarrow> bool" where
  "keeps j i a a' =
     (wf_array a' \<and> nrows a' = nrows a \<and> ncols a' = ncols a
      \<and> (\<forall>j' i'. j' < nrows a \<and> i' < ncols a \<and> (j' < j \<or> (j' = j \<and> i' \<le> i))
            \<longrightarrow> cell a' j' i' = cell a j' i'))"

text \<open>The color an output pixel shows, and the palettes of the data model: every channel
  of every entry in \<open>[0, 255]\<close>.\<close>

fun rgb_color :: "rgb \<Rightarrow> color" where
  "rgb_color (r, g, b) = (uint r, uint g, uint b)"

fun valid_color :: "color \<Rightarrow> bool" where
  "valid_color (r, g, b) = (0 \<le> r \<and> r \<le> 255 \<and> 0 \<le> g \<and> g \<le> 255 \<and> 0 \<le> b \<and> b \<le> 255)"

definition valid_palette :: "color list \<Rightarrow> bool" where
  "valid_palette palette = list_all valid_color palette"

text \<open>The pixel \<^verbatim>\<open>_find_closest_color\<close> returns for a non-empty palette, as a total
  function.\<close>

definition nearest :: "color list \<Rightarrow> pixel \<Rightarrow> pixel" where
  "nearest palette p = (case find_closest_color p palette of Inl e \<Rightarrow> p | Inr v \<Rightarrow> v)"

text \<open>
  The distance in the words of the specification: the sum over the three channels of the
  squared difference of pixel and palette entry, in exact arithmetic; and a palette entry
  as the pixel it denotes. \<open>sixteenths\<close> are the pixels whose channels are multiples of
  1/16 in \<open>[0, 255]\<close>.
\<close>

fun squared_distance :: "pixel \<Rightarrow> color \<Rightarrow> rat" where
  "squared_distance (p1, p2, p3) (r, g, b) =
     (p1 - of_int r)\<^sup>2 + (p2 - of_int g)\<^sup>2 + (p3 - of_int b)\<^sup>2"

fun color_value :: "color \<Rightarrow> pixel" where
  "color_value (r, g, b) = (of_int r, of_int g, of_int b)"

definition sixteenth :: "rat \<Rightarrow> bool" where
  "sixteenth v = (0 \<le> v \<and> v \<le> 255 \<and> of_int \<lfloor>16 * v\<rfloor> = 16 * v)"

fun sixteenths :: "pixel \<Rightarrow> bool" where
  "sixteenths (p1, p2, p3) = (sixteenth p1 \<and> sixteenth p2 \<and> sixteenth p3)"

section \<open>Example inputs\<close>

definition gray_2x2 :: image where
  "gray_2x2 =
     \<lparr>width = 2, height = 2,
      pixels = [[(128, 128, 128), (128, 128, 128)], [(128, 128, 128), (128, 128, 128)]]\<rparr>"

definition white_4x4 :: image where
  "white_4x4 = \<lparr>width = 4, height = 4, pixels = replicate 4 (replicate 4 (255, 255, 255))\<rparr>"

text \<open>A stand-in for the two collaborators, for the instances below: resizing returns a
  black image of the requested size, contrast enhancement returns its argument.\<close>

definition black_pil :: pil where
  "black_pil =
     \<lparr>pil_resize = (\<lambda>img (w, h).
        if w \<le> 0 \<or> h \<le> 0 then Inl ValueError
        else Inr \<lparr>width = nat w, height = nat h,
                  pixels = replicate (nat h) (replicate (nat w) (0, 0, 0))\<rparr>),
      pil_enhance = (\<lambda>img factor. Inr img)\<rparr>"

text \<open>A pixel of three float64 channels (each a multiple of \<open>2 ^ -20\<close> below 256) whose
  sum is 382.5.\<close>

definition tie_pixel :: pixel where
  "tie_pixel = (128909947 / 1048576, 32580007 / 524288, 207010359 / 1048576)"


definition image_49x1 :: image where
  "image_49x1 = \<lparr>width = 49, height = 1, pixels = [replicate 49 (0, 0, 0)]\<rparr>"

definition dark_2x2 :: image where
  "dark_2x2 =
     \<lparr>width = 2, height = 2,
      pixels = [[(100, 100, 100), (100, 100, 100)], [(100, 100, 100), (100, 100, 100)]]\<rparr>"

section \<open>The rounding on representable numbers\<close>

lemma round_half_even_of_int: "round_half_even (of_int m) = m"
  by (simp add: round_half_even_def)

lemma exponent2_lower:
  assumes "q \<noteq> 0"
  shows "power_int 2 (exponent2 q) \<le> \<bar>q\<bar>"
proof -
  obtain a b where ab: "quotient_of \<bar>q\<bar> = (a, b)" by (cases "quotient_of \<bar>q\<bar>")
  have b: "0 < b" using ab by (rule quotient_of_denom_pos)
  have q: "\<bar>q\<bar> = of_int a / of_int b" using ab by (rule quotient_of_div)
  have "0 < \<bar>q\<bar>" using assms by simp
  then have a: "0 < a" using q b by (simp add: zero_less_divide_iff)
  define e where "e = bitlen a - bitlen b"
  have la: "1 \<le> bitlen a" and lb: "1 \<le> bitlen b"
    using a b bitlen_eq_zero_iff [of a] bitlen_eq_zero_iff [of b] bitlen_nonneg [of a] bitlen_nonneg [of b]
    by linarith+
  have "(2::int) ^ nat (bitlen a - 1) \<le> a" using bitlen_bounds [OF a] by simp
  then have A: "(2::rat) ^ nat (bitlen a - 1) \<le> of_int a"
    by (metis of_int_le_iff of_int_numeral of_int_power)
  have "b < (2::int) ^ nat (bitlen b)" using bitlen_bounds [OF b] by simp
  then have B: "of_int b \<le> (2::rat) ^ nat (bitlen b)"
    by (metis less_imp_le of_int_le_iff of_int_numeral of_int_power)
  have "e - 1 = (bitlen a - 1) - bitlen b" by (simp add: e_def)
  moreover have "power_int (2::rat) ((bitlen a - 1) - bitlen b)
      = power_int 2 (bitlen a - 1) / power_int 2 (bitlen b)"
    by (rule power_int_diff) simp
  ultimately have "power_int (2::rat) (e - 1) = power_int 2 (bitlen a - 1) / power_int 2 (bitlen b)"
    by (simp only:)
  also have "\<dots> = (2::rat) ^ nat (bitlen a - 1) / 2 ^ nat (bitlen b)"
    using la lb by (simp add: power_int_nonneg_exp)
  also have "\<dots> \<le> of_int a / of_int b"
    using A B a b by (intro frac_le) simp_all
  finally have low: "power_int 2 (e - 1) \<le> \<bar>q\<bar>" using q by simp
  show ?thesis
    using low by (simp add: exponent2_def ab e_def Let_def)
qed

lemma exponent2_upper:
  assumes "q \<noteq> 0"
  shows "\<bar>q\<bar> < power_int 2 (exponent2 q + 1)"
proof -
  obtain a b where ab: "quotient_of \<bar>q\<bar> = (a, b)" by (cases "quotient_of \<bar>q\<bar>")
  have b: "0 < b" using ab by (rule quotient_of_denom_pos)
  have q: "\<bar>q\<bar> = of_int a / of_int b" using ab by (rule quotient_of_div)
  have "0 < \<bar>q\<bar>" using assms by simp
  then have a: "0 < a" using q b by (simp add: zero_less_divide_iff)
  define e where "e = bitlen a - bitlen b"
  have la: "1 \<le> bitlen a" and lb: "1 \<le> bitlen b"
    using a b bitlen_eq_zero_iff [of a] bitlen_eq_zero_iff [of b] bitlen_nonneg [of a] bitlen_nonneg [of b]
    by linarith+
  have "a < (2::int) ^ nat (bitlen a)" using bitlen_bounds [OF a] by simp
  then have A: "of_int a < (2::rat) ^ nat (bitlen a)"
    by (metis of_int_less_iff of_int_numeral of_int_power)
  have "(2::int) ^ nat (bitlen b - 1) \<le> b" using bitlen_bounds [OF b] by simp
  then have B: "(2::rat) ^ nat (bitlen b - 1) \<le> of_int b"
    by (metis of_int_le_iff of_int_numeral of_int_power)
  have "of_int a / of_int b < (2::rat) ^ nat (bitlen a) / 2 ^ nat (bitlen b - 1)"
    using A B a b by (intro frac_less) simp_all
  also have "\<dots> = power_int 2 (bitlen a) / power_int 2 (bitlen b - 1)"
    using la lb by (simp add: power_int_nonneg_exp)
  also have "\<dots> = power_int 2 (bitlen a - (bitlen b - 1))"
    by (rule power_int_diff [symmetric]) simp
  also have "bitlen a - (bitlen b - 1) = e + 1" by (simp add: e_def)
  finally have up: "\<bar>q\<bar> < power_int 2 (e + 1)" using q by simp
  show ?thesis
  proof (cases "power_int 2 e \<le> \<bar>q\<bar>")
    case True
    then have "exponent2 q = e" by (simp add: exponent2_def ab e_def Let_def)
    with up show ?thesis by simp
  next
    case False
    then have "exponent2 q = e - 1" by (simp add: exponent2_def ab e_def Let_def)
    with False show ?thesis by simp
  qed
qed

text \<open>A number \<open>n / 2 ^ k\<close> with \<open>\<bar>n\<bar> < 2 ^ 53\<close> is a binary64 number: rounding keeps it.\<close>

lemma fl_exact:
  assumes "\<bar>n\<bar> < 2 ^ 53"
  shows "fl (of_int n / 2 ^ k) = of_int n / 2 ^ k"
proof (cases "n = 0")
  case True
  then show ?thesis by (simp add: fl_def)
next
  case False
  define q :: rat where "q = of_int n / 2 ^ k"
  have q0: "q \<noteq> 0" using False by (simp add: q_def)
  define e where "e = exponent2 q"
  have "\<bar>q\<bar> = of_int \<bar>n\<bar> / 2 ^ k" by (simp add: q_def abs_divide)
  also have "\<dots> < 2 ^ 53 / 2 ^ k"
    using assms by (intro divide_strict_right_mono) (simp_all flip: of_int_less_iff)
  also have "\<dots> = power_int 2 (53 - int k)"
    by (simp add: power_int_diff)
  finally have up: "\<bar>q\<bar> < power_int 2 (53 - int k)" .
  have "power_int 2 e \<le> \<bar>q\<bar>" unfolding e_def by (rule exponent2_lower [OF q0])
  with up have "power_int (2::rat) e < power_int 2 (53 - int k)" by simp
  then have elt: "e < 53 - int k"
    using power_int_increasing [of "53 - int k" e "2::rat"] by (cases "e < 53 - int k") auto
  define d where "d = nat (52 - e - int k)"
  have d: "int d = 52 - e - int k" using elt by (simp add: d_def)
  have "power_int (2::rat) (52 - e - int k) * power_int 2 (e - 52) * 2 ^ k = 1"
    by (simp flip: power_int_add power_int_of_nat)
  then have "q / power_int 2 (e - 52) = of_int n * power_int 2 (52 - e - int k)"
    by (simp add: q_def field_simps)
  also have "\<dots> = of_int (n * 2 ^ d)"
    by (simp flip: d)
  finally have quo: "q / power_int 2 (e - 52) = of_int (n * 2 ^ d)" .
  have "fl q = of_int (round_half_even (q / power_int 2 (e - 52))) * power_int 2 (e - 52)"
    using q0 by (simp add: fl_def Let_def e_def)
  also have "\<dots> = of_int (n * 2 ^ d) * power_int 2 (e - 52)"
    by (simp only: quo round_half_even_of_int)
  also have "\<dots> = q"
    using quo by (metis nonzero_eq_divide_eq power_int_eq_0_iff zero_neq_numeral)
  finally show ?thesis by (simp add: q_def)
qed

lemma fl_representable:
  assumes "representable q"
  shows "fl q = q"
proof -
  obtain a b where ab: "quotient_of q = (a, b)" by (cases "quotient_of q")
  have q: "q = of_int a / of_int b" using ab by (rule quotient_of_div)
  from assms ab have a: "\<bar>a\<bar> < 2 ^ 53" and b: "b = 2 ^ nat (bitlen b - 1)"
    by (simp_all add: representable_def)
  have "of_int b = (2::rat) ^ nat (bitlen b - 1)"
    by (subst b) simp
  with q have "q = of_int a / 2 ^ nat (bitlen b - 1)" by simp
  with fl_exact [OF a, of "nat (bitlen b - 1)"] show ?thesis by simp
qed

text \<open>Evaluation skips the rounding of a number that is representable.\<close>

lemma fl_code [code]:
  "fl q = (if representable q then q
           else if q = 0 then 0
           else let u = power_int 2 (exponent2 q - 52) in of_int (round_half_even (q / u)) * u)"
  by (simp add: fl_representable) (simp add: fl_def)

lemma float_of_int_exact: "\<bar>n\<bar> < 2 ^ 53 \<Longrightarrow> float_of_int n = of_int n"
  using fl_exact [of n 0] by (simp add: float_of_int_def)

section \<open>The ordered mode\<close>

text \<open>
  Claim C6. For every image, every palette and every matrix size, \<^verbatim>\<open>ordered_dither\<close>
  returns what \<^verbatim>\<open>bayer_dither\<close> returns on the same image and palette (the same image, or
  the same exception): the matrix size is ignored.
\<close>

theorem ordered_dither_is_bayer:
  "ordered_dither img palette matrix_size = bayer_dither img palette"
  by (simp add: ordered_dither_def)

section \<open>Color matching: the first nearest entry\<close>

lemma first_min_at_iff:
  "first_min_at pixel cs i \<longleftrightarrow>
     i < length cs
     \<and> (\<forall>j<length cs. color_distance pixel (cs ! i) \<le> color_distance pixel (cs ! j))
     \<and> (\<forall>j<i. color_distance pixel (cs ! i) < color_distance pixel (cs ! j))"
  by (auto simp: first_min_at_def list_all_length)

lemma scan_inv_step:
  assumes "scan_inv pixel pre s"
  shows "scan_inv pixel (pre @ [x]) (closest_step pixel s x) \<and> fst (closest_step pixel s x) \<noteq> None"
proof -
  obtain m c where Pair: "s = (m, c)" by (cases s)
  show ?thesis
  proof (cases m)
    case None
    with Pair assms have "pre = []" by (simp add: scan_inv_def)
    with Pair None show ?thesis
      by (simp add: scan_inv_def first_min_at_iff)
  next
    case (Some d)
    with Pair assms obtain i where i: "first_min_at pixel pre i"
      and d: "d = color_distance pixel (pre ! i)" and c: "c = pre ! i"
      by (auto simp: scan_inv_def)
    from i have il: "i < length pre" by (simp add: first_min_at_iff)
    show ?thesis
    proof (cases "color_distance pixel x < d")
      case True
      have "first_min_at pixel (pre @ [x]) (length pre)"
        using i True d
        by (fastforce simp: first_min_at_iff nth_append)
      with Pair Some True show ?thesis
        by (auto simp: scan_inv_def)
    next
      case False
      have "first_min_at pixel (pre @ [x]) i"
        using i False d il
        by (fastforce simp: first_min_at_iff nth_append less_Suc_eq)
      with Pair Some False d c il show ?thesis
        by (auto simp: scan_inv_def nth_append)
    qed
  qed
qed

lemma scan_inv_foldl:
  "scan_inv pixel pre s \<Longrightarrow> scan_inv pixel (pre @ cs) (foldl (closest_step pixel) s cs)"
proof (induction cs arbitrary: pre s)
  case Nil
  then show ?case by simp
next
  case (Cons x cs)
  from scan_inv_step [OF Cons.prems] have "scan_inv pixel (pre @ [x]) (closest_step pixel s x)" by simp
  from Cons.IH [OF this] show ?case by simp
qed

lemma foldl_closest_not_None:
  "cs \<noteq> [] \<or> fst s \<noteq> None \<Longrightarrow> fst (foldl (closest_step pixel) s cs) \<noteq> None"
proof (induction cs arbitrary: s)
  case Nil
  then show ?case by simp
next
  case (Cons x cs)
  obtain m c where "s = (m, c)" by (cases s)
  then have "fst (closest_step pixel s x) \<noteq> None"
    by (cases m) (auto simp: Let_def)
  then show ?case using Cons.IH [of "closest_step pixel s x"] by simp
qed

lemma find_closest_color_index:
  assumes "palette \<noteq> []"
  shows "\<exists>i. first_min_at pixel palette i \<and>
             find_closest_color pixel palette = Inr (color_array (palette ! i))"
proof -
  obtain c0 rest where p: "palette = c0 # rest" using assms by (cases palette) auto
  let ?s = "foldl (closest_step pixel) (None, c0) palette"
  have "scan_inv pixel [] (None, c0)" by (simp add: scan_inv_def)
  from scan_inv_foldl [OF this, of palette] have inv: "scan_inv pixel palette ?s" by simp
  have "fst ?s \<noteq> None" using assms by (intro foldl_closest_not_None) simp
  then obtain m where "fst ?s = Some m" by auto
  with inv obtain i where "first_min_at pixel palette i" "snd ?s = palette ! i"
    by (auto simp: scan_inv_def)
  then show ?thesis
    by (auto simp: find_closest_color_def p)
qed

subsection \<open>The computed distance on sixteenths\<close>

text \<open>
  For a pixel whose channels are multiples of \<open>1 / 16\<close> in \<open>[0, 255]\<close> and a color with
  channels in \<open>[0, 255]\<close>, no operation of the distance rounds: the computed distance is
  the sum of the three squared differences.
\<close>

lemma fl_dyadic:
  assumes "q = of_int n / 2 ^ k" "\<bar>n\<bar> < 2 ^ 53"
  shows "fl q = q"
  using fl_exact [OF assms(2), of k] assms(1) by simp

lemma square_bound:
  fixes d :: int
  assumes "\<bar>d\<bar> \<le> 4080"
  shows "d * d \<le> 16646400"
proof -
  have "\<bar>d\<bar> * \<bar>d\<bar> \<le> 4080 * 4080" using assms by (intro mult_mono) simp_all
  then show ?thesis by (simp add: abs_mult_self_eq)
qed

lemma channel_difference_exact:
  assumes "0 \<le> m" "m \<le> 4080" "0 \<le> c" "c \<le> 255"
  shows "fsub (of_int m / 16) (float_of_int c) = of_int (m - 16 * c) / 16"
    and "fmul (of_int (m - 16 * c) / 16) (of_int (m - 16 * c) / 16)
           = of_int ((m - 16 * c) * (m - 16 * c)) / 256"
proof -
  have c: "float_of_int c = of_int c" using assms by (intro float_of_int_exact) simp
  have "fl (of_int m / 16 - of_int c) = of_int m / 16 - of_int c"
    using assms by (intro fl_dyadic [where n = "m - 16 * c" and k = 4]) (simp_all add: field_simps)
  then show "fsub (of_int m / 16) (float_of_int c) = of_int (m - 16 * c) / 16"
    by (simp add: fsub_def c field_simps)
  have "\<bar>m - 16 * c\<bar> \<le> 4080" using assms by simp
  from square_bound [OF this] have "\<bar>(m - 16 * c) * (m - 16 * c)\<bar> < 2 ^ 53" by simp
  then have "fl (of_int ((m - 16 * c) * (m - 16 * c)) / 2 ^ 8) = of_int ((m - 16 * c) * (m - 16 * c)) / 2 ^ 8"
    by (rule fl_exact)
  then show "fmul (of_int (m - 16 * c) / 16) (of_int (m - 16 * c) / 16)
           = of_int ((m - 16 * c) * (m - 16 * c)) / 256"
    by (simp add: fmul_def)
qed

lemma color_distance_exact:
  assumes m: "0 \<le> m1" "m1 \<le> 4080" "0 \<le> m2" "m2 \<le> 4080" "0 \<le> m3" "m3 \<le> 4080"
    and c: "valid_color (r, g, b)"
  shows "color_distance (of_int m1 / 16, of_int m2 / 16, of_int m3 / 16) (r, g, b)
           = (of_int m1 / 16 - of_int r)\<^sup>2 + (of_int m2 / 16 - of_int g)\<^sup>2
             + (of_int m3 / 16 - of_int b)\<^sup>2"
proof -
  from c have r: "0 \<le> r" "r \<le> 255" and g: "0 \<le> g" "g \<le> 255" and b: "0 \<le> b" "b \<le> 255"
    by simp_all
  define s1 where "s1 = (m1 - 16 * r) * (m1 - 16 * r)"
  define s2 where "s2 = (m2 - 16 * g) * (m2 - 16 * g)"
  define s3 where "s3 = (m3 - 16 * b) * (m3 - 16 * b)"
  have b1: "0 \<le> s1" "s1 \<le> 16646400" and b2: "0 \<le> s2" "s2 \<le> 16646400"
    and b3: "0 \<le> s3" "s3 \<le> 16646400"
    using m r g b unfolding s1_def s2_def s3_def by (simp_all add: square_bound)
  have "color_distance (of_int m1 / 16, of_int m2 / 16, of_int m3 / 16) (r, g, b)
      = fadd (fadd (of_int s1 / 256) (of_int s2 / 256)) (of_int s3 / 256)"
    by (simp only: color_distance_def color_array.simps vsub.simps vsquare.simps np_sum.simps
        channel_difference_exact [OF m(1,2) r] channel_difference_exact [OF m(3,4) g]
        channel_difference_exact [OF m(5,6) b] s1_def s2_def s3_def)
  also have "fadd (of_int s1 / 256) (of_int s2 / 256) = of_int (s1 + s2) / 256"
    using b1 b2 unfolding fadd_def
    by (intro trans [OF fl_dyadic [where n = "s1 + s2" and k = 8]]) (simp_all add: add_divide_distrib)
  also have "fadd (of_int (s1 + s2) / 256) (of_int s3 / 256) = of_int (s1 + s2 + s3) / 256"
    using b1 b2 b3 unfolding fadd_def
    by (intro trans [OF fl_dyadic [where n = "s1 + s2 + s3" and k = 8]]) (simp_all add: add_divide_distrib)
  also have "\<dots> = (of_int m1 / 16 - of_int r)\<^sup>2 + (of_int m2 / 16 - of_int g)\<^sup>2
             + (of_int m3 / 16 - of_int b)\<^sup>2"
    by (simp add: s1_def s2_def s3_def power2_eq_square field_simps)
  finally show ?thesis .
qed

lemma sixteenthD:
  assumes "sixteenth v"
  shows "\<exists>m. 0 \<le> m \<and> m \<le> 4080 \<and> v = of_int m / 16"
proof -
  from assms have v: "0 \<le> v" "v \<le> 255" and f: "of_int \<lfloor>16 * v\<rfloor> = 16 * v"
    by (simp_all add: sixteenth_def)
  have "0 \<le> 16 * v" "16 * v \<le> 4080" using v by simp_all
  then have "0 \<le> \<lfloor>16 * v\<rfloor>" "\<lfloor>16 * v\<rfloor> \<le> 4080"
    by (simp_all add: floor_le_iff)
  moreover have "v = of_int \<lfloor>16 * v\<rfloor> / 16" by (simp add: f)
  ultimately show ?thesis by blast
qed

lemma color_distance_squared:
  assumes "sixteenths pixel" "valid_color c"
  shows "color_distance pixel c = squared_distance pixel c"
proof -
  obtain p1 p2 p3 where p: "pixel = (p1, p2, p3)" by (cases pixel)
  obtain r g b where c: "c = (r, g, b)" by (cases c)
  from assms(1) p have "sixteenth p1" "sixteenth p2" "sixteenth p3" by simp_all
  then obtain m1 m2 m3
    where m: "0 \<le> m1" "m1 \<le> 4080" "0 \<le> m2" "m2 \<le> 4080" "0 \<le> m3" "m3 \<le> 4080"
      and v: "p1 = of_int m1 / 16" "p2 = of_int m2 / 16" "p3 = of_int m3 / 16"
    by (blast dest: sixteenthD)
  from color_distance_exact [OF m, of r g b] assms(2) show ?thesis
    by (simp add: p c v)
qed

lemma color_array_value: "valid_color c \<Longrightarrow> color_array c = color_value c"
  by (cases c) (simp add: float_of_int_exact)

text \<open>
  Claim C2, as stated: for every pixel value the matcher returns the first entry at the
  minimum of the sum of the squared channel differences, never a later entry at equal
  distance. It fails for a pixel whose squares are rounded: the three channels of
  \<open>tie_pixel\<close> are float64 numbers that add up to 382.5, so black and white are at exactly
  the same distance, and the matcher returns white, the later entry, whose computed
  distance is the smaller one.
\<close>

theorem find_closest_color_rounding_tie:
  "squared_distance tie_pixel (0, 0, 0) = squared_distance tie_pixel (255, 255, 255)
   \<and> find_closest_color tie_pixel [(0, 0, 0), (255, 255, 255)] = Inr (255, 255, 255)"
proof
  show "squared_distance tie_pixel (0, 0, 0) = squared_distance tie_pixel (255, 255, 255)"
    by (simp add: tie_pixel_def power2_eq_square)
  show "find_closest_color tie_pixel [(0, 0, 0), (255, 255, 255)] = Inr (255, 255, 255)"
    by code_simp
qed

text \<open>
  Claim C2, amended. For every pixel whose channels are multiples of 1/16 in \<open>[0, 255]\<close>
  and every non-empty palette with channels in \<open>[0, 255]\<close>, \<^verbatim>\<open>_find_closest_color\<close> returns
  the entry at the first index at which the squared Euclidean distance, the sum over the
  three channels of \<open>(pixel_c - palette_c)\<^sup>2\<close>, is least: no entry is nearer, and every
  entry before it is strictly farther, so a later entry at equal distance is never chosen.
  For pixel (100,100,100) and palette [(90,100,100), (110,100,100)] the result is
  (90,100,100).
\<close>

theorem find_closest_color_first_minimum:
  assumes "palette \<noteq> []" and "valid_palette palette" and "sixteenths pixel"
  shows "(\<exists>i<length palette.
            find_closest_color pixel palette = Inr (color_value (palette ! i))
          \<and> (\<forall>j<length palette.
                squared_distance pixel (palette ! i) \<le> squared_distance pixel (palette ! j))
          \<and> (\<forall>j<i. squared_distance pixel (palette ! i) < squared_distance pixel (palette ! j)))
       \<and> find_closest_color (100, 100, 100) [(90, 100, 100), (110, 100, 100)]
           = Inr (90, 100, 100)"
proof
  from find_closest_color_index [OF assms(1), of pixel] obtain i
    where i: "first_min_at pixel palette i"
      and r: "find_closest_color pixel palette = Inr (color_array (palette ! i))" by blast
  have valid: "valid_color (palette ! j)" if "j < length palette" for j
    using assms(2) that by (simp add: valid_palette_def list_all_length)
  have d: "color_distance pixel (palette ! j) = squared_distance pixel (palette ! j)"
    if "j < length palette" for j
    using color_distance_squared [OF assms(3) valid [OF that]] .
  from i have il: "i < length palette" by (simp add: first_min_at_iff)
  have "\<forall>j<length palette.
          squared_distance pixel (palette ! i) \<le> squared_distance pixel (palette ! j)"
    using i il by (simp add: first_min_at_iff flip: d)
  moreover have "\<forall>j<i. squared_distance pixel (palette ! i) < squared_distance pixel (palette ! j)"
    using i il by (simp add: first_min_at_iff flip: d)
  moreover have "find_closest_color pixel palette = Inr (color_value (palette ! i))"
    using r valid [OF il] by (simp add: color_array_value)
  ultimately show "\<exists>i<length palette.
            find_closest_color pixel palette = Inr (color_value (palette ! i))
          \<and> (\<forall>j<length palette.
                squared_distance pixel (palette ! i) \<le> squared_distance pixel (palette ! j))
          \<and> (\<forall>j<i. squared_distance pixel (palette ! i) < squared_distance pixel (palette ! j))"
    using il by blast
  show "find_closest_color (100, 100, 100) [(90, 100, 100), (110, 100, 100)] = Inr (90, 100, 100)"
    by code_simp
qed

theorem find_closest_color_first_minimum_witness:
  "[(90, 100, 100), (110, 100, 100)] \<noteq> ([] :: color list)
   \<and> valid_palette [(90, 100, 100), (110, 100, 100)]
   \<and> sixteenths (100, 100, 100)
   \<and> (\<exists>i<length [(90, 100, 100), (110, 100, 100) :: color].
         find_closest_color (100, 100, 100) [(90, 100, 100), (110, 100, 100)]
           = Inr (color_value ([(90, 100, 100), (110, 100, 100)] ! i))
       \<and> (\<forall>j<length [(90, 100, 100), (110, 100, 100) :: color].
             squared_distance (100, 100, 100) ([(90, 100, 100), (110, 100, 100)] ! i)
               \<le> squared_distance (100, 100, 100) ([(90, 100, 100), (110, 100, 100)] ! j))
       \<and> (\<forall>j<i. squared_distance (100, 100, 100) ([(90, 100, 100), (110, 100, 100)] ! i)
               < squared_distance (100, 100, 100) ([(90, 100, 100), (110, 100, 100)] ! j)))"
proof -
  have ne: "[(90, 100, 100), (110, 100, 100)] \<noteq> ([] :: color list)" by simp
  have vp: "valid_palette [(90, 100, 100), (110, 100, 100)]" by (simp add: valid_palette_def)
  have sx: "sixteenths (100, 100, 100)" by (simp add: sixteenth_def)
  from find_closest_color_first_minimum [OF ne vp sx] ne vp sx show ?thesis
    by blast
qed

section \<open>Palette closure and dimensions of the ditherers\<close>

lemma bind_err_Inr [simp]: "bind_err (Inr v) f = f v"
  by (simp add: bind_err_def)

lemma bind_err_Inl [simp]: "bind_err (Inl e) f = Inl e"
  by (simp add: bind_err_def)

lemma for_each_append:
  "for_each (xs @ ys) body s = bind_err (for_each xs body s) (for_each ys body)"
  by (induction xs arbitrary: s) (auto split: sum.splits)

lemma py_range_Suc: "py_range (Suc n) = py_range n @ [int n]"
  by (simp add: py_range_def)

lemma for_each_range:
  assumes "P 0 s"
    and "\<And>k t. k < n \<Longrightarrow> P k t \<Longrightarrow> \<exists>t'. body (int k) t = Inr t' \<and> P (Suc k) t'"
  shows "\<exists>s'. for_each (py_range n) body s = Inr s' \<and> P n s'"
  using assms(2)
proof (induction n)
  case 0
  with assms(1) show ?case by (simp add: py_range_def)
next
  case (Suc n)
  have "\<exists>s'. for_each (py_range n) body s = Inr s' \<and> P n s'"
    by (rule Suc.IH) (use Suc.prems in auto)
  then obtain s1 where s1: "for_each (py_range n) body s = Inr s1" "P n s1" by blast
  from Suc.prems [of n s1] s1 obtain s2 where "body (int n) s1 = Inr s2" "P (Suc n) s2" by auto
  with s1 show ?case by (simp add: py_range_Suc for_each_append)
qed

subsection \<open>Stores and reads inside the array\<close>

lemma index_of_in [simp]: "j < n \<Longrightarrow> index_of n (int j) = Inr j"
  by (simp add: index_of_def)

lemma upd_shape [simp]: "nrows (upd a j i v) = nrows a" "ncols (upd a j i v) = ncols a"
  by (simp_all add: upd_def)

lemma upd_wf: "wf_array a \<Longrightarrow> wf_array (upd a j i v)"
  by (cases "j < length (cells a)")
     (auto simp: wf_array_def wf_cells_def upd_def list_all_length nth_list_update)

lemma cell_upd:
  assumes "wf_array a" "j < nrows a" "i < ncols a" "j' < nrows a" "i' < ncols a"
  shows "cell (upd a j i v) j' i' = (if j' = j \<and> i' = i then v else cell a j' i')"
  using assms
  by (auto simp: wf_array_def wf_cells_def upd_def cell_def list_all_length nth_list_update)

lemma getitem_in: "j < nrows a \<Longrightarrow> i < ncols a \<Longrightarrow> getitem a (int j) (int i) = Inr (cell a j i)"
  by (simp add: getitem_def cell_def)

lemma setitem_in: "j < nrows a \<Longrightarrow> i < ncols a \<Longrightarrow> setitem a (int j) (int i) v = Inr (upd a j i v)"
  by (simp add: setitem_def upd_def)

lemma iadd_in:
  "j < nrows a \<Longrightarrow> i < ncols a \<Longrightarrow> iadd a (int j) (int i) d = Inr (upd a j i (vadd (cell a j i) d))"
  by (simp add: iadd_def getitem_in setitem_in)

lemma keeps_refl: "wf_array a \<Longrightarrow> keeps j i a a"
  by (simp add: keeps_def)

lemma keeps_trans: "keeps j i a b \<Longrightarrow> keeps j i b c \<Longrightarrow> keeps j i a c"
  by (simp add: keeps_def)

lemma keeps_iadd:
  assumes "wf_array a" "j' < nrows a" "i' < ncols a" "j < j' \<or> (j = j' \<and> i < i')"
  shows "\<exists>a'. iadd a (int j') (int i') d = Inr a' \<and> keeps j i a a'"
  using assms by (auto simp: iadd_in keeps_def upd_wf cell_upd)


lemma keepsD:
  assumes "keeps j i a a'"
  shows "wf_array a'" "nrows a' = nrows a" "ncols a' = ncols a"
  using assms by (simp_all add: keeps_def)

lemma keeps_cell:
  assumes "keeps j i a a'" "j' < nrows a" "i' < ncols a" "j' < j \<or> (j' = j \<and> i' \<le> i)"
  shows "cell a' j' i' = cell a j' i'"
  using assms by (simp add: keeps_def)

lemma guarded_iadd:
  assumes "wf_array a"
    and "g \<Longrightarrow> 0 \<le> y \<and> y < int (nrows a) \<and> 0 \<le> x \<and> x < int (ncols a)
               \<and> (int j < y \<or> (int j = y \<and> int i < x))"
  shows "\<exists>a'. (if g then iadd a y x d else Inr a) = Inr a' \<and> keeps j i a a'"
proof (cases g)
  case True
  with assms(2) have r: "0 \<le> y" "y < int (nrows a)" "0 \<le> x" "x < int (ncols a)"
    "int j < y \<or> (int j = y \<and> int i < x)" by simp_all
  then have "nat y < nrows a" "nat x < ncols a" "j < nat y \<or> (j = nat y \<and> i < nat x)"
    by auto
  from keeps_iadd [OF assms(1) this, of d] r True show ?thesis by simp
next
  case False
  with assms(1) show ?thesis by (simp add: keeps_refl)
qed

subsection \<open>One step of each ditherer\<close>

lemma find_closest_color_member:
  assumes "palette \<noteq> []"
  shows "\<exists>c\<in>set palette. find_closest_color pixel palette = Inr (color_array c)"
proof -
  from find_closest_color_index [OF assms, of pixel] obtain k
    where "first_min_at pixel palette k"
      and "find_closest_color pixel palette = Inr (color_array (palette ! k))" by blast
  then show ?thesis by (auto simp: first_min_at_iff)
qed

lemma floyd_steinberg_body_ok:
  assumes wf: "wf_array a" and j: "j < nrows a" and i: "i < ncols a" and ne: "palette \<noteq> []"
    and H: "H = nrows a" and W: "W = ncols a"
  shows "\<exists>a' v. floyd_steinberg_body palette (int H) (int W) (int j) (int i) a = Inr a'
           \<and> v \<in> color_array ` set palette \<and> keeps j i (upd a j i v) a'"
proof -
  from find_closest_color_member [OF ne, of "cell a j i"] obtain c
    where c: "c \<in> set palette"
      and fc: "find_closest_color (cell a j i) palette = Inr (color_array c)" by blast
  define a1 where "a1 = upd a j i (color_array c)"
  define err where "err = vsub (cell a1 j i) (color_array c)"
  have wf1: "wf_array a1" and sh1: "nrows a1 = nrows a" "ncols a1 = ncols a"
    using wf by (simp_all add: a1_def upd_wf)
  have g1: "getitem a (int j) (int i) = Inr (cell a j i)" using j i by (rule getitem_in)
  have s1: "setitem a (int j) (int i) (color_array c) = Inr a1"
    using j i by (simp add: setitem_in a1_def)
  have g2: "getitem a1 (int j) (int i) = Inr (cell a1 j i)" using j i sh1 by (simp add: getitem_in)
  obtain a2 where a2: "(if int i + 1 < int (ncols a) then iadd a1 (int j) (int i + 1) (fs_weighted err 7)
                        else Inr a1) = Inr a2" and k2: "keeps j i a1 a2"
    using guarded_iadd [OF wf1, of "int i + 1 < int (ncols a)" "int j" "int i + 1" j i "fs_weighted err 7"]
      j sh1 by auto
  note d2 = keepsD [OF k2]
  have body: "floyd_steinberg_body palette (int (nrows a)) (int (ncols a)) (int j) (int i) a =
      (if int j + 1 < int (nrows a) then
         bind_err (if int i - 1 \<ge> 0 then iadd a2 (int j + 1) (int i - 1) (fs_weighted err 3) else Inr a2) (\<lambda>a3.
         bind_err (iadd a3 (int j + 1) (int i) (fs_weighted err 5)) (\<lambda>a4.
         if int i + 1 < int (ncols a) then iadd a4 (int j + 1) (int i + 1) (fs_weighted err 1) else Inr a4))
       else Inr a2)"
    unfolding floyd_steinberg_body_def
    by (simp only: g1 fc s1 g2 bind_err_Inr Let_def a2 flip: err_def)
  show ?thesis
  proof (cases "int j + 1 < int (nrows a)")
    case False
    with body have "floyd_steinberg_body palette (int (nrows a)) (int (ncols a)) (int j) (int i) a = Inr a2"
      by (simp only: if_False)
    with k2 c show ?thesis unfolding a1_def H W by blast
  next
    case True
    obtain a3 where a3: "(if int i - 1 \<ge> 0 then iadd a2 (int j + 1) (int i - 1) (fs_weighted err 3)
                          else Inr a2) = Inr a3" and k3: "keeps j i a2 a3"
      using guarded_iadd [OF d2(1), of "int i - 1 \<ge> 0" "int j + 1" "int i - 1" j i "fs_weighted err 3"]
        True i sh1 d2 by auto
    note d3 = keepsD [OF k3]
    obtain a4 where a4: "iadd a3 (int j + 1) (int i) (fs_weighted err 5) = Inr a4"
      and k4: "keeps j i a3 a4"
      using guarded_iadd [OF d3(1), of True "int j + 1" "int i" j i "fs_weighted err 5"]
        True i sh1 d2 d3 by auto
    note d4 = keepsD [OF k4]
    obtain a5 where a5: "(if int i + 1 < int (ncols a) then iadd a4 (int j + 1) (int i + 1) (fs_weighted err 1)
                          else Inr a4) = Inr a5" and k5: "keeps j i a4 a5"
      using guarded_iadd [OF d4(1), of "int i + 1 < int (ncols a)" "int j + 1" "int i + 1" j i "fs_weighted err 1"]
        True sh1 d2 d3 d4 by auto
    have "floyd_steinberg_body palette (int (nrows a)) (int (ncols a)) (int j) (int i) a = Inr a5"
      using True by (simp only: body a3 a4 a5 bind_err_Inr if_True)
    moreover have "keeps j i a1 a5"
      using k2 k3 k4 k5 by (blast intro: keeps_trans)
    ultimately show ?thesis using c unfolding a1_def H W by blast
  qed
qed

lemma bayer_body_ok:
  assumes wf: "wf_array a" and j: "j < nrows a" and i: "i < ncols a" and ne: "palette \<noteq> []"
  shows "\<exists>a' v. bayer_body palette (int j) (int i) a = Inr a'
           \<and> v \<in> color_array ` set palette \<and> keeps j i (upd a j i v) a'"
proof -
  define noisy where "noisy = vclip (vadd_scalar (cell a j i)
      (fsub (fmul (bayer_matrix_4x4 ! nat (int j mod 4) ! nat (int i mod 4)) 255) (255 / 2))) 0 255"
  from find_closest_color_member [OF ne, of noisy] obtain c
    where c: "c \<in> set palette"
      and fc: "find_closest_color noisy palette = Inr (color_array c)" by blast
  have "bayer_body palette (int j) (int i) a = Inr (upd a j i (color_array c))"
    using j i fc by (simp add: bayer_body_def getitem_in setitem_in Let_def noisy_def)
  moreover have "keeps j i (upd a j i (color_array c)) (upd a j i (color_array c))"
    using wf by (intro keeps_refl upd_wf)
  ultimately show ?thesis using c by blast
qed

subsection \<open>The raster scan\<close>

lemma raster_scan:
  fixes body :: "int \<Rightarrow> int \<Rightarrow> 'a ndarray \<Rightarrow> error + 'a ndarray"
  assumes wf: "wf_array a0"
    and step: "\<And>j i a. wf_array a \<Longrightarrow> nrows a = nrows a0 \<Longrightarrow> ncols a = ncols a0 \<Longrightarrow>
                 j < nrows a0 \<Longrightarrow> i < ncols a0 \<Longrightarrow>
                 \<exists>a' v. body (int j) (int i) a = Inr a' \<and> Q v \<and> keeps j i (upd a j i v) a'"
  shows "\<exists>a'. for_each (py_range (nrows a0)) (\<lambda>y. for_each (py_range (ncols a0)) (body y)) a0 = Inr a'
           \<and> wf_array a' \<and> nrows a' = nrows a0 \<and> ncols a' = ncols a0
           \<and> (\<forall>j<nrows a0. \<forall>i<ncols a0. Q (cell a' j i))"
proof -
  let ?H = "nrows a0" and ?W = "ncols a0"
  let ?shape = "\<lambda>a. wf_array a \<and> nrows a = ?H \<and> ncols a = ?W"
  let ?Pi = "\<lambda>j i a. ?shape a \<and>
      (\<forall>j' i'. j' < ?H \<and> i' < ?W \<and> (j' < j \<or> (j' = j \<and> i' < i)) \<longrightarrow> Q (cell a j' i'))"
  let ?Po = "\<lambda>j a. ?shape a \<and> (\<forall>j' i'. j' < ?H \<and> i' < ?W \<and> j' < j \<longrightarrow> Q (cell a j' i'))"
  have inner: "\<exists>a'. body (int j) (int i) a = Inr a' \<and> ?Pi j (Suc i) a'"
    if "j < ?H" "i < ?W" "?Pi j i a" for j i a
  proof -
    from that have sh: "wf_array a" "nrows a = ?H" "ncols a = ?W" by simp_all
    from step [OF sh that(1,2)] obtain a' v
      where b: "body (int j) (int i) a = Inr a'" and v: "Q v" and k: "keeps j i (upd a j i v) a'"
      by blast
    have shape': "?shape a'" using keepsD [OF k] sh by simp
    have "Q (cell a' j' i')" if r: "j' < ?H" "i' < ?W" "j' < j \<or> (j' = j \<and> i' < Suc i)" for j' i'
    proof -
      from r have "cell a' j' i' = cell (upd a j i v) j' i'"
        using keeps_cell [OF k, of j' i'] sh by auto
      also have "\<dots> = (if j' = j \<and> i' = i then v else cell a j' i')"
        using r sh \<open>j < ?H\<close> \<open>i < ?W\<close> by (simp add: cell_upd)
      finally show ?thesis using v r \<open>?Pi j i a\<close> by (auto simp: less_Suc_eq)
    qed
    with b shape' show ?thesis by blast
  qed
  have row: "\<exists>a'. for_each (py_range ?W) (body (int j)) a = Inr a' \<and> ?Po (Suc j) a'"
    if jH: "j < ?H" and Po: "?Po j a" for j a
  proof -
    have "?Pi j 0 a" using Po by auto
    from for_each_range [where P = "?Pi j" and body = "body (int j)", OF this, of ?W]
    obtain a' where "for_each (py_range ?W) (body (int j)) a = Inr a'" "?Pi j ?W a'"
      using inner [OF jH] by blast
    moreover from this have "?Po (Suc j) a'" by (auto simp: less_Suc_eq)
    ultimately show ?thesis by blast
  qed
  have "?Po 0 a0" using wf by simp
  from for_each_range [where P = ?Po and body = "\<lambda>y. for_each (py_range ?W) (body y)", OF this, of ?H]
  obtain a' where "for_each (py_range ?H) (\<lambda>y. for_each (py_range ?W) (body y)) a0 = Inr a'" "?Po ?H a'"
    using row by blast
  then show ?thesis by auto
qed


subsection \<open>Back to an image\<close>

lemma channel_back:
  assumes "0 \<le> r" "r \<le> 255"
  shows "uint (word_of_int (py_int (clip (float_of_int r) 0 255)) :: 8 word) = r"
proof -
  have "float_of_int r = of_int r" using assms by (intro float_of_int_exact) simp
  moreover have "clip (of_int r) 0 255 = (of_int r :: rat)"
    using assms by (simp add: clip_def min_def max_def)
  moreover have "py_int (of_int r) = r" using assms by (simp add: py_int_def)
  moreover have "uint (word_of_int r :: 8 word) = r"
    using assms by (simp add: uint_word_of_int take_bit_eq_mod)
  ultimately show ?thesis by simp
qed

lemma quantize_back:
  "valid_color c \<Longrightarrow> rgb_color (pixel_to_uint8 (vclip (color_array c) 0 255)) = c"
  by (cases c) (simp add: channel_back)

lemma np_array_shape [simp]:
  "nrows (np_array img) = height img" "ncols (np_array img) = width img"
  by (simp_all add: np_array_def)

lemma np_array_wf: "wf_image img \<Longrightarrow> wf_array (np_array img)"
  by (simp add: wf_image_def wf_array_def wf_cells_def np_array_def list_all_iff)

lemma to_image_shape [simp]:
  "width (to_image a) = ncols a" "height (to_image a) = nrows a"
  by (simp_all add: to_image_def fromarray_def astype_uint8_def np_clip_def)

lemma to_image_wf: "wf_array a \<Longrightarrow> wf_image (to_image a)"
  by (simp add: wf_image_def wf_array_def wf_cells_def to_image_def fromarray_def
      astype_uint8_def np_clip_def list_all_iff)

lemma to_image_pixel:
  assumes "wf_array a" "row \<in> set (pixels (to_image a))" "p \<in> set row"
  shows "\<exists>j<nrows a. \<exists>i<ncols a. p = pixel_to_uint8 (vclip (cell a j i) 0 255)"
proof -
  from assms(2) obtain r where r: "r \<in> set (cells a)"
    and row: "row = map (\<lambda>q. pixel_to_uint8 (vclip q 0 255)) r"
    by (auto simp: to_image_def fromarray_def astype_uint8_def np_clip_def)
  from r obtain j where j: "j < length (cells a)" "r = cells a ! j"
    by (auto simp: in_set_conv_nth)
  from assms(3) row obtain i where i: "i < length r" "p = pixel_to_uint8 (vclip (r ! i) 0 255)"
    by (auto simp: in_set_conv_nth)
  from assms(1) j i have "j < nrows a" "i < ncols a"
    by (auto simp: wf_array_def wf_cells_def list_all_length)
  with i j show ?thesis by (auto simp: cell_def)
qed

lemma floyd_steinberg_scan:
  assumes "wf_image img" "palette \<noteq> []"
  shows "\<exists>a. floyd_steinberg_dither img palette = Inr (to_image a)
           \<and> wf_array a \<and> nrows a = height img \<and> ncols a = width img
           \<and> (\<forall>j<height img. \<forall>i<width img. cell a j i \<in> color_array ` set palette)"
proof -
  let ?a0 = "np_array img"
  have wf0: "wf_array ?a0" using assms(1) by (rule np_array_wf)
  have "\<exists>a' v. floyd_steinberg_body palette (int (nrows ?a0)) (int (ncols ?a0)) (int j) (int i) a = Inr a'
            \<and> v \<in> color_array ` set palette \<and> keeps j i (upd a j i v) a'"
    if "wf_array a" "nrows a = nrows ?a0" "ncols a = ncols ?a0" "j < nrows ?a0" "i < ncols ?a0"
    for j i a
    using that assms(2) by (intro floyd_steinberg_body_ok) simp_all
  from raster_scan [where body = "floyd_steinberg_body palette (int (nrows ?a0)) (int (ncols ?a0))"
      and Q = "\<lambda>v. v \<in> color_array ` set palette", OF wf0 this]
  obtain a where "for_each (py_range (nrows ?a0))
        (\<lambda>y. for_each (py_range (ncols ?a0))
           (floyd_steinberg_body palette (int (nrows ?a0)) (int (ncols ?a0)) y)) ?a0 = Inr a"
    and "wf_array a" "nrows a = nrows ?a0" "ncols a = ncols ?a0"
    and "\<forall>j<nrows ?a0. \<forall>i<ncols ?a0. cell a j i \<in> color_array ` set palette"
    by blast
  then show ?thesis
    by (intro exI [of _ a]) (simp add: floyd_steinberg_dither_def Let_def)
qed

lemma bayer_scan:
  assumes "wf_image img" "palette \<noteq> []"
  shows "\<exists>a. bayer_dither img palette = Inr (to_image a)
           \<and> wf_array a \<and> nrows a = height img \<and> ncols a = width img
           \<and> (\<forall>j<height img. \<forall>i<width img. cell a j i \<in> color_array ` set palette)"
proof -
  let ?a0 = "np_array img"
  have wf0: "wf_array ?a0" using assms(1) by (rule np_array_wf)
  have "\<exists>a' v. bayer_body palette (int j) (int i) a = Inr a'
            \<and> v \<in> color_array ` set palette \<and> keeps j i (upd a j i v) a'"
    if "wf_array a" "nrows a = nrows ?a0" "ncols a = ncols ?a0" "j < nrows ?a0" "i < ncols ?a0"
    for j i a
    using that assms(2) by (intro bayer_body_ok) simp_all
  from raster_scan [where body = "bayer_body palette"
      and Q = "\<lambda>v. v \<in> color_array ` set palette", OF wf0 this]
  obtain a where "for_each (py_range (nrows ?a0))
        (\<lambda>y. for_each (py_range (ncols ?a0)) (bayer_body palette y)) ?a0 = Inr a"
    and "wf_array a" "nrows a = nrows ?a0" "ncols a = ncols ?a0"
    and "\<forall>j<nrows ?a0. \<forall>i<ncols ?a0. cell a j i \<in> color_array ` set palette"
    by blast
  then show ?thesis
    by (intro exI [of _ a]) (simp add: bayer_dither_def Let_def)
qed

lemma palette_exact_image:
  assumes "wf_array a" "valid_palette palette"
    and "\<forall>j<nrows a. \<forall>i<ncols a. cell a j i \<in> color_array ` set palette"
  shows "\<forall>row\<in>set (pixels (to_image a)). \<forall>p\<in>set row. rgb_color p \<in> set palette"
proof (intro ballI)
  fix row p
  assume "row \<in> set (pixels (to_image a))" "p \<in> set row"
  from to_image_pixel [OF assms(1) this] obtain j i
    where "j < nrows a" "i < ncols a" and p: "p = pixel_to_uint8 (vclip (cell a j i) 0 255)"
    by blast
  with assms(3) obtain c where c: "c \<in> set palette" "cell a j i = color_array c" by blast
  from c(1) assms(2) have "valid_color c" by (simp add: valid_palette_def list_all_iff)
  with p c show "rgb_color p \<in> set palette" by (simp add: quantize_back)
qed

text \<open>
  Claim C1. For every RGB image and every non-empty palette whose entries have their three
  channels in \<open>[0, 255]\<close>, \<^verbatim>\<open>floyd_steinberg_dither\<close> and \<^verbatim>\<open>bayer_dither\<close> both return an
  image, and every pixel of that image is equal to an entry of the palette.
\<close>

theorem palette_closure:
  assumes "wf_image img" "palette \<noteq> []" "valid_palette palette"
  shows "(\<exists>out. floyd_steinberg_dither img palette = Inr out
            \<and> (\<forall>row\<in>set (pixels out). \<forall>p\<in>set row. rgb_color p \<in> set palette))
       \<and> (\<exists>out. bayer_dither img palette = Inr out
            \<and> (\<forall>row\<in>set (pixels out). \<forall>p\<in>set row. rgb_color p \<in> set palette))"
proof
  from floyd_steinberg_scan [OF assms(1,2)] obtain a
    where "floyd_steinberg_dither img palette = Inr (to_image a)" "wf_array a"
      and "\<forall>j<nrows a. \<forall>i<ncols a. cell a j i \<in> color_array ` set palette" by auto
  with palette_exact_image [OF _ assms(3), of a]
  show "\<exists>out. floyd_steinberg_dither img palette = Inr out
            \<and> (\<forall>row\<in>set (pixels out). \<forall>p\<in>set row. rgb_color p \<in> set palette)" by blast
next
  from bayer_scan [OF assms(1,2)] obtain a
    where "bayer_dither img palette = Inr (to_image a)" "wf_array a"
      and "\<forall>j<nrows a. \<forall>i<ncols a. cell a j i \<in> color_array ` set palette" by auto
  with palette_exact_image [OF _ assms(3), of a]
  show "\<exists>out. bayer_dither img palette = Inr out
            \<and> (\<forall>row\<in>set (pixels out). \<forall>p\<in>set row. rgb_color p \<in> set palette)" by blast
qed

theorem palette_closure_witness:
  "wf_image gray_2x2 \<and> DOT_MATRIX_PALETTE \<noteq> [] \<and> valid_palette DOT_MATRIX_PALETTE
   \<and> (\<exists>out. floyd_steinberg_dither gray_2x2 DOT_MATRIX_PALETTE = Inr out
          \<and> (\<forall>row\<in>set (pixels out). \<forall>p\<in>set row. rgb_color p \<in> set DOT_MATRIX_PALETTE))
   \<and> (\<exists>out. bayer_dither gray_2x2 DOT_MATRIX_PALETTE = Inr out
          \<and> (\<forall>row\<in>set (pixels out). \<forall>p\<in>set row. rgb_color p \<in> set DOT_MATRIX_PALETTE))"
proof -
  have h1: "wf_image gray_2x2"
    by (simp add: wf_image_def wf_cells_def gray_2x2_def)
  have h2: "DOT_MATRIX_PALETTE \<noteq> []"
    by (simp add: DOT_MATRIX_PALETTE_def)
  have h3: "valid_palette DOT_MATRIX_PALETTE"
    by (simp add: valid_palette_def DOT_MATRIX_PALETTE_def)
  from palette_closure [OF h1 h2 h3] h1 h2 h3 show ?thesis by blast
qed

text \<open>
  Claim C8. For every RGB image and every non-empty palette, \<^verbatim>\<open>floyd_steinberg_dither\<close> and
  \<^verbatim>\<open>bayer_dither\<close> both return an image whose width and height are those of the input (and
  whose pixel grid has that many rows and columns).
\<close>

theorem dimension_preservation:
  assumes "wf_image img" "palette \<noteq> []"
  shows "(\<exists>out. floyd_steinberg_dither img palette = Inr out
            \<and> width out = width img \<and> height out = height img \<and> wf_image out)
       \<and> (\<exists>out. bayer_dither img palette = Inr out
            \<and> width out = width img \<and> height out = height img \<and> wf_image out)"
proof
  from floyd_steinberg_scan [OF assms] obtain a
    where "floyd_steinberg_dither img palette = Inr (to_image a)" "wf_array a"
      "nrows a = height img" "ncols a = width img" by auto
  then show "\<exists>out. floyd_steinberg_dither img palette = Inr out
            \<and> width out = width img \<and> height out = height img \<and> wf_image out"
    by (auto simp: to_image_wf)
next
  from bayer_scan [OF assms] obtain a
    where "bayer_dither img palette = Inr (to_image a)" "wf_array a"
      "nrows a = height img" "ncols a = width img" by auto
  then show "\<exists>out. bayer_dither img palette = Inr out
            \<and> width out = width img \<and> height out = height img \<and> wf_image out"
    by (auto simp: to_image_wf)
qed

theorem dimension_preservation_witness:
  "wf_image white_4x4 \<and> GAMEBOY_PALETTE \<noteq> []
   \<and> (\<exists>out. floyd_steinberg_dither white_4x4 GAMEBOY_PALETTE = Inr out
          \<and> width out = 4 \<and> height out = 4 \<and> wf_image out)
   \<and> (\<exists>out. bayer_dither white_4x4 GAMEBOY_PALETTE = Inr out
          \<and> width out = 4 \<and> height out = 4 \<and> wf_image out)"
proof -
  have h1: "wf_image white_4x4"
    by (simp add: wf_image_def wf_cells_def white_4x4_def list_all_iff)
  have h2: "GAMEBOY_PALETTE \<noteq> []"
    by (simp add: GAMEBOY_PALETTE_def)
  have "width white_4x4 = 4" "height white_4x4 = 4"
    by (simp_all add: white_4x4_def)
  with dimension_preservation [OF h1 h2] h1 h2 show ?thesis by simp
qed

section \<open>The presets\<close>

lemma lower_cga: "lower ''cga'' = ''cga''"
  by (simp add: lower_def lower_char_def)

text \<open>
  Claim C9. For every palette name whose lowercase form is none of \<open>cga\<close>, \<open>apple2\<close>,
  \<open>c64\<close>, \<open>spectrum\<close>, \<^verbatim>\<open>convert_to_retro_color\<close> raises nothing for the name: it runs its
  resize and contrast steps and then the selected ditherer with the CGA palette, which is
  what the same call with the name \<open>cga\<close> does.
\<close>

theorem retro_color_unknown_palette:
  assumes "lower name \<notin> {''cga'', ''apple2'', ''c64'', ''spectrum''}"
  shows "convert_to_retro_color ext img w name dither_method contrast_factor
           = bind_err (resize_image ext img w None True) (\<lambda>resized.
             bind_err (enhance_contrast ext resized contrast_factor) (\<lambda>enhanced.
             if dither_method = ''floyd_steinberg''
               then floyd_steinberg_dither enhanced CGA_PALETTE
             else if dither_method = ''bayer'' then bayer_dither enhanced CGA_PALETTE
             else ordered_dither enhanced CGA_PALETTE 4))
       \<and> convert_to_retro_color ext img w name dither_method contrast_factor
           = convert_to_retro_color ext img w ''cga'' dither_method contrast_factor"
proof -
  have 1: "dict_get palette_map (lower name) CGA_PALETTE = CGA_PALETTE"
    using assms by (simp add: dict_get_def palette_map_def)
  have 2: "dict_get palette_map (lower ''cga'') CGA_PALETTE = CGA_PALETTE"
    by (simp add: lower_cga dict_get_def palette_map_def)
  show ?thesis
    by (simp only: 1 2 convert_to_retro_color_def Let_def simp_thms)
qed

theorem retro_color_unknown_palette_witness:
  "lower ''VGA'' \<notin> {''cga'', ''apple2'', ''c64'', ''spectrum''}
   \<and> convert_to_retro_color black_pil gray_2x2 320 ''VGA'' ''bayer'' (6 / 5)
       = bind_err (resize_image black_pil gray_2x2 320 None True) (\<lambda>resized.
         bind_err (enhance_contrast black_pil resized (6 / 5)) (\<lambda>enhanced.
         if ''bayer'' = ''floyd_steinberg'' then floyd_steinberg_dither enhanced CGA_PALETTE
         else if ''bayer'' = ''bayer'' then bayer_dither enhanced CGA_PALETTE
         else ordered_dither enhanced CGA_PALETTE 4))
   \<and> convert_to_retro_color black_pil gray_2x2 320 ''VGA'' ''bayer'' (6 / 5)
       = convert_to_retro_color black_pil gray_2x2 320 ''cga'' ''bayer'' (6 / 5)"
proof -
  have h: "lower ''VGA'' \<notin> {''cga'', ''apple2'', ''c64'', ''spectrum''}"
    by code_simp
  from retro_color_unknown_palette [OF h, of black_pil gray_2x2 320 "''bayer''" "6 / 5"] h
  show ?thesis by blast
qed

text \<open>
  Claim C10. For every dither-method string other than \<open>floyd_steinberg\<close> and \<open>bayer\<close>,
  each of the three presets runs its resize and contrast steps and then \<^verbatim>\<open>ordered_dither\<close>;
  no error is raised for the name, and the call returns what it returns for the method
  \<open>ordered\<close>, which is also what it returns for \<open>bayer\<close>.
\<close>

theorem preset_unknown_dither_method:
  assumes "m \<noteq> ''floyd_steinberg''" "m \<noteq> ''bayer''"
  shows "convert_to_gameboy_camera ext img m cf
           = bind_err (resize_image ext img 128 (Some 112) False) (\<lambda>resized.
             bind_err (enhance_contrast ext resized cf) (\<lambda>enhanced.
             ordered_dither enhanced GAMEBOY_PALETTE 4))
       \<and> convert_to_gameboy_camera ext img m cf = convert_to_gameboy_camera ext img ''ordered'' cf
       \<and> convert_to_gameboy_camera ext img m cf = convert_to_gameboy_camera ext img ''bayer'' cf
       \<and> convert_to_dot_matrix ext img w m cf
           = bind_err (resize_image ext img w None True) (\<lambda>resized.
             bind_err (enhance_contrast ext resized cf) (\<lambda>enhanced.
             ordered_dither enhanced DOT_MATRIX_PALETTE 4))
       \<and> convert_to_dot_matrix ext img w m cf = convert_to_dot_matrix ext img w ''ordered'' cf
       \<and> convert_to_dot_matrix ext img w m cf = convert_to_dot_matrix ext img w ''bayer'' cf
       \<and> convert_to_retro_color ext img w name m cf
           = bind_err (resize_image ext img w None True) (\<lambda>resized.
             bind_err (enhance_contrast ext resized cf) (\<lambda>enhanced.
             ordered_dither enhanced (dict_get palette_map (lower name) CGA_PALETTE) 4))
       \<and> convert_to_retro_color ext img w name m cf
           = convert_to_retro_color ext img w name ''ordered'' cf
       \<and> convert_to_retro_color ext img w name m cf
           = convert_to_retro_color ext img w name ''bayer'' cf"
  using assms
  by (simp add: convert_to_gameboy_camera_def convert_to_dot_matrix_def
      convert_to_retro_color_def ordered_dither_def Let_def)

theorem preset_unknown_dither_method_witness:
  "''atkinson'' \<noteq> ''floyd_steinberg'' \<and> ''atkinson'' \<noteq> ''bayer''
   \<and> convert_to_gameboy_camera black_pil gray_2x2 ''atkinson'' (3 / 2)
       = convert_to_gameboy_camera black_pil gray_2x2 ''ordered'' (3 / 2)
   \<and> convert_to_dot_matrix black_pil gray_2x2 200 ''atkinson'' 2
       = convert_to_dot_matrix black_pil gray_2x2 200 ''ordered'' 2
   \<and> convert_to_retro_color black_pil gray_2x2 320 ''c64'' ''atkinson'' (6 / 5)
       = convert_to_retro_color black_pil gray_2x2 320 ''c64'' ''ordered'' (6 / 5)"
proof -
  have h1: "''atkinson'' \<noteq> ''floyd_steinberg''" and h2: "''atkinson'' \<noteq> ''bayer''"
    by simp_all
  from preset_unknown_dither_method [OF h1 h2] h1 h2 show ?thesis by blast
qed

section \<open>The target height of a resize\<close>

subsection \<open>The error of one rounding\<close>






subsection \<open>The truncated product against the exact quotient\<close>




text \<open>Rounding can leave the product below an exact integer quotient: the quotient
  \<open>1 / 49\<close> rounds down, and \<open>49\<close> times it rounds to the float below \<open>1\<close>.\<close>

lemma resize_49x1: "resize_target_height image_49x1 49 None True = Inr 0"
  by code_simp




section \<open>What the Floyd-Steinberg pass computes\<close>

text \<open>
  The error of a step is the difference of the cell, read through the view after the store,
  and the color just stored: zero. A step is the store of the nearest color and nothing
  else, and the pass maps every pixel of the input to its own nearest color.
\<close>

lemma fl_zero [simp]: "fl 0 = 0"
  by (simp add: fl_def)

lemma vsub_self: "vsub p p = (0, 0, 0)"
  by (cases p) (simp add: fsub_def)

lemma fs_weighted_zero: "fs_weighted (0, 0, 0) k = (0, 0, 0)"
  by (simp add: fs_weighted_def fmul_def fdiv_def)

lemma upd_same:
  assumes "wf_array a" "j < nrows a"
  shows "upd a j i (cell a j i) = a"
  by (simp add: upd_def cell_def)

lemma guarded_iadd_zero:
  assumes "g \<Longrightarrow> 0 \<le> y \<and> y < int (nrows a) \<and> 0 \<le> x \<and> x < int (ncols a)
             \<and> vadd (cell a (nat y) (nat x)) (0, 0, 0) = cell a (nat y) (nat x)"
  shows "(if g then iadd a y x (0, 0, 0) else Inr a) = Inr a"
proof (cases g)
  case True
  with assms have r: "nat y < nrows a" "nat x < ncols a"
    and v: "vadd (cell a (nat y) (nat x)) (0, 0, 0) = cell a (nat y) (nat x)"
    and p: "0 \<le> y" "0 \<le> x" by auto
  from iadd_in [OF r, of "(0, 0, 0)"] p have "iadd a y x (0, 0, 0) = Inr (upd a (nat y) (nat x) (cell a (nat y) (nat x)))"
    by (simp add: v)
  with True show ?thesis by (simp add: upd_def cell_def)
next
  case False
  then show ?thesis by simp
qed

lemma floyd_steinberg_body_store:
  assumes wf: "wf_array a" and j: "j < nrows a" and i: "i < ncols a" and ne: "palette \<noteq> []"
    and later: "\<And>j' i'. j' < nrows a \<Longrightarrow> i' < ncols a \<Longrightarrow> j < j' \<or> (j = j' \<and> i < i') \<Longrightarrow>
                  vadd (cell a j' i') (0, 0, 0) = cell a j' i'"
  shows "floyd_steinberg_body palette (int (nrows a)) (int (ncols a)) (int j) (int i) a
           = Inr (upd a j i (nearest palette (cell a j i)))"
proof -
  from find_closest_color_member [OF ne, of "cell a j i"] obtain c
    where fc: "find_closest_color (cell a j i) palette = Inr (color_array c)" by blast
  define np where "np = color_array c"
  have near: "nearest palette (cell a j i) = np" by (simp add: nearest_def fc np_def)
  define a1 where "a1 = upd a j i np"
  have wf1: "wf_array a1" and sh1: "nrows a1 = nrows a" "ncols a1 = ncols a"
    using wf by (simp_all add: a1_def upd_wf)
  have g1: "getitem a (int j) (int i) = Inr (cell a j i)" using j i by (rule getitem_in)
  have s1: "setitem a (int j) (int i) np = Inr a1"
    using j i by (simp add: setitem_in a1_def)
  have "cell a1 j i = np" using wf j i by (simp add: a1_def cell_upd)
  then have g2: "getitem a1 (int j) (int i) = Inr np" using j i sh1 by (simp add: getitem_in)
  have fixed: "vadd (cell a1 j' i') (0, 0, 0) = cell a1 j' i'"
    if "j' < nrows a" "i' < ncols a" "j < j' \<or> (j = j' \<and> i < i')" for j' i'
    using that later [OF that] wf j i by (auto simp: a1_def cell_upd)
  have e1: "(if int i + 1 < int (ncols a) then iadd a1 (int j) (int i + 1) (0, 0, 0) else Inr a1) = Inr a1"
    using j sh1 fixed [of j "Suc i"] by (intro guarded_iadd_zero) (auto simp: nat_add_distrib)
  have e2: "(if int i - 1 \<ge> 0 then iadd a1 (int j + 1) (int i - 1) (0, 0, 0) else Inr a1) = Inr a1"
    if "int j + 1 < int (nrows a)"
    using that i sh1 fixed [of "Suc j" "i - 1"]
    by (intro guarded_iadd_zero) (auto simp: nat_add_distrib nat_diff_distrib)
  have e3: "iadd a1 (int j + 1) (int i) (0, 0, 0) = Inr a1"
    if "int j + 1 < int (nrows a)"
    using that i sh1 fixed [of "Suc j" i] guarded_iadd_zero [of True "int j + 1" a1 "int i"]
    by (auto simp: nat_add_distrib)
  have e4: "(if int i + 1 < int (ncols a) then iadd a1 (int j + 1) (int i + 1) (0, 0, 0) else Inr a1) = Inr a1"
    if "int j + 1 < int (nrows a)"
    using that sh1 fixed [of "Suc j" "Suc i"] by (intro guarded_iadd_zero) (auto simp: nat_add_distrib)
  have body: "floyd_steinberg_body palette (int (nrows a)) (int (ncols a)) (int j) (int i) a =
      (if int j + 1 < int (nrows a) then
         bind_err (if int i - 1 \<ge> 0 then iadd a1 (int j + 1) (int i - 1) (0, 0, 0) else Inr a1) (\<lambda>a3.
         bind_err (iadd a3 (int j + 1) (int i) (0, 0, 0)) (\<lambda>a4.
         if int i + 1 < int (ncols a) then iadd a4 (int j + 1) (int i + 1) (0, 0, 0) else Inr a4))
       else Inr a1)"
    unfolding floyd_steinberg_body_def
    by (simp only: g1 fc s1 g2 bind_err_Inr Let_def vsub_self fs_weighted_zero e1 flip: np_def)
  show ?thesis
  proof (cases "int j + 1 < int (nrows a)")
    case True
    have "floyd_steinberg_body palette (int (nrows a)) (int (ncols a)) (int j) (int i) a = Inr a1"
      by (simp only: body e2 [OF True] e3 [OF True] e4 [OF True] bind_err_Inr True if_True)
    then show ?thesis by (simp only: near a1_def)
  next
    case False
    then have "floyd_steinberg_body palette (int (nrows a)) (int (ncols a)) (int j) (int i) a = Inr a1"
      by (simp only: body if_False)
    then show ?thesis by (simp only: near a1_def)
  qed
qed


lemma rgb_to_float_fixed: "vadd (rgb_to_float q) (0, 0, 0) = rgb_to_float q"
proof -
  have "fl (of_int (uint w)) = of_int (uint w)" for w :: "8 word"
  proof -
    have "uint w < 2 ^ 8" using uint_lt2p [of w] by simp
    then have "\<bar>uint w\<bar> < 2 ^ 53" by simp
    from fl_exact [OF this, of 0] show ?thesis by simp
  qed
  then show ?thesis by (cases q) (simp add: fadd_def)
qed

lemma np_array_cell:
  assumes "wf_image img" "j < height img" "i < width img"
  shows "cell (np_array img) j i = rgb_to_float (pixels img ! j ! i)"
  using assms by (simp add: cell_def np_array_def wf_image_def wf_cells_def list_all_length)

lemma floyd_steinberg_cells:
  assumes wfi: "wf_image img" and ne: "palette \<noteq> []"
  shows "\<exists>a. floyd_steinberg_dither img palette = Inr (to_image a)
           \<and> wf_array a \<and> nrows a = height img \<and> ncols a = width img
           \<and> (\<forall>j<height img. \<forall>i<width img.
                 cell a j i = nearest palette (rgb_to_float (pixels img ! j ! i)))"
proof -
  let ?a0 = "np_array img"
  let ?H = "height img" and ?W = "width img"
  let ?body = "floyd_steinberg_body palette (int ?H) (int ?W)"
  let ?I = "\<lambda>j i a. wf_array a \<and> nrows a = ?H \<and> ncols a = ?W \<and>
      (\<forall>j' i'. j' < ?H \<and> i' < ?W \<longrightarrow>
         cell a j' i' = (if j' < j \<or> (j' = j \<and> i' < i) then nearest palette (cell ?a0 j' i')
                         else cell ?a0 j' i'))"
  have wf0: "wf_array ?a0" using wfi by (rule np_array_wf)
  have c0: "cell ?a0 j i = rgb_to_float (pixels img ! j ! i)" if "j < ?H" "i < ?W" for j i
    using np_array_cell [OF wfi that] .
  have inner: "\<exists>a'. ?body (int j) (int i) a = Inr a' \<and> ?I j (Suc i) a'"
    if jH: "j < ?H" and iW: "i < ?W" and I: "?I j i a" for j i a
  proof -
    from I have sh: "wf_array a" "nrows a = ?H" "ncols a = ?W" by simp_all
    have cur: "cell a j i = cell ?a0 j i" using I jH iW by simp
    have later: "vadd (cell a j' i') (0, 0, 0) = cell a j' i'"
      if "j' < nrows a" "i' < ncols a" "j < j' \<or> (j = j' \<and> i < i')" for j' i'
    proof -
      from that sh have r: "j' < ?H" "i' < ?W" by simp_all
      with that(3) I have "cell a j' i' = cell ?a0 j' i'" by auto
      with c0 [OF r] show ?thesis by (simp add: rgb_to_float_fixed)
    qed
    have "?body (int j) (int i) a = Inr (upd a j i (nearest palette (cell a j i)))"
      using floyd_steinberg_body_store [OF sh(1) _ _ ne later, of j i] jH iW sh by simp
    moreover have "?I j (Suc i) (upd a j i (nearest palette (cell a j i)))"
      using I jH iW sh cur by (auto simp: upd_wf cell_upd less_Suc_eq)
    ultimately show ?thesis by blast
  qed
  have row: "\<exists>a'. for_each (py_range ?W) (?body (int j)) a = Inr a' \<and> ?I (Suc j) 0 a'"
    if jH: "j < ?H" and I: "?I j 0 a" for j a
  proof -
    from for_each_range [where P = "?I j" and body = "?body (int j)", OF I, of ?W]
    obtain a' where "for_each (py_range ?W) (?body (int j)) a = Inr a'" "?I j ?W a'"
      using inner [OF jH] by blast
    moreover from this have "?I (Suc j) 0 a'" by (auto simp: less_Suc_eq)
    ultimately show ?thesis by blast
  qed
  have "?I 0 0 ?a0" using wf0 by simp
  from for_each_range [where P = "\<lambda>j. ?I j 0" and body = "\<lambda>y. for_each (py_range ?W) (?body y)",
      OF this, of ?H]
  obtain a where run: "for_each (py_range ?H) (\<lambda>y. for_each (py_range ?W) (?body y)) ?a0 = Inr a"
    and fin: "?I ?H 0 a"
    using row by blast
  have "floyd_steinberg_dither img palette = Inr (to_image a)"
    using run by (simp add: floyd_steinberg_dither_def Let_def)
  moreover have "cell a j i = nearest palette (rgb_to_float (pixels img ! j ! i))"
    if "j < ?H" "i < ?W" for j i
    using fin that c0 [OF that] by simp
  ultimately show ?thesis using fin by blast
qed

lemma to_image_nth:
  assumes "wf_array a" "j < nrows a" "i < ncols a"
  shows "pixels (to_image a) ! j ! i = pixel_to_uint8 (vclip (cell a j i) 0 255)"
  using assms
  by (simp add: to_image_def fromarray_def astype_uint8_def np_clip_def cell_def
      wf_array_def wf_cells_def list_all_length)

lemma floyd_steinberg_quantizes_each_pixel:
  assumes "wf_image img" "palette \<noteq> []"
  shows "\<exists>out. floyd_steinberg_dither img palette = Inr out
           \<and> (\<forall>j<height img. \<forall>i<width img.
                 pixels out ! j ! i =
                   pixel_to_uint8 (vclip (nearest palette (rgb_to_float (pixels img ! j ! i))) 0 255))"
proof -
  from floyd_steinberg_cells [OF assms] obtain a
    where "floyd_steinberg_dither img palette = Inr (to_image a)"
      and "wf_array a" "nrows a = height img" "ncols a = width img"
      and "\<forall>j<height img. \<forall>i<width img.
             cell a j i = nearest palette (rgb_to_float (pixels img ! j ! i))"
    by blast
  then show ?thesis
    by (intro exI [of _ "to_image a"]) (simp add: to_image_nth)
qed

section \<open>The ditherers on the example inputs\<close>

lemma floyd_steinberg_gray_2x2:
  "floyd_steinberg_dither gray_2x2 DOT_MATRIX_PALETTE =
     Inr \<lparr>width = 2, height = 2,
          pixels = [[(255, 255, 255), (255, 255, 255)], [(255, 255, 255), (255, 255, 255)]]\<rparr>"
  by code_simp

lemma gray_distances:
  "color_distance (128, 128, 128) (0, 0, 0) = 49152"
  "color_distance (128, 128, 128) (255, 255, 255) = 48387"
  by code_simp+

lemma bayer_white_4x4:
  "bayer_dither white_4x4 GAMEBOY_PALETTE =
     Inr \<lparr>width = 4, height = 4,
          pixels =
            [[(48, 98, 48), (155, 188, 15), (139, 172, 15), (155, 188, 15)],
             [(155, 188, 15), (155, 188, 15), (155, 188, 15), (155, 188, 15)],
             [(155, 188, 15), (155, 188, 15), (139, 172, 15), (155, 188, 15)],
             [(155, 188, 15), (155, 188, 15), (155, 188, 15), (155, 188, 15)]]\<rparr>"
  by code_simp

text \<open>
  Claim C3 says that each step adds the error, the old accumulator minus the chosen color,
  to the neighbours with weights 7/16, 3/16, 5/16 and 1/16. The code does not: \<open>old_pixel\<close>
  is a view of the cell, the cell holds the chosen color when the error is computed, and
  the error is zero. On a 2 x 2 image of (100,100,100) with the black and white palette,
  the step at (0, 0) stores black and leaves the three neighbours at 100, where the claim
  has 143.75 at (1, 0), a value whose nearest color is white; the returned image is black
  at every pixel. (\<open>floyd_steinberg_quantizes_each_pixel\<close> is the general fact.)
\<close>

theorem floyd_steinberg_error_is_lost:
  "floyd_steinberg_body DOT_MATRIX_PALETTE 2 2 0 0 (np_array dark_2x2) =
     Inr \<lparr>nrows = 2, ncols = 2,
          cells = [[(0, 0, 0), (100, 100, 100)], [(100, 100, 100), (100, 100, 100)]]\<rparr>
   \<and> find_closest_color (100 + 100 * 7 / 16, 100 + 100 * 7 / 16, 100 + 100 * 7 / 16)
         DOT_MATRIX_PALETTE = Inr (255, 255, 255)
   \<and> floyd_steinberg_dither dark_2x2 DOT_MATRIX_PALETTE =
       Inr \<lparr>width = 2, height = 2,
            pixels = [[(0, 0, 0), (0, 0, 0)], [(0, 0, 0), (0, 0, 0)]]\<rparr>"
  by code_simp

text \<open>
  Claim C4, as stated: on the 2 x 2 image of (128,128,128) with the palette
  [(0,0,0), (255,255,255)], pixel (0, 0) becomes (0,0,0) by a tie resolved to the first
  entry. It fails: white is strictly nearer, and pixel (0, 0) of the output is not black.
\<close>

theorem gray_2x2_first_pixel_not_black:
  "color_distance (128, 128, 128) (255, 255, 255) < color_distance (128, 128, 128) (0, 0, 0)
   \<and> (\<exists>out. floyd_steinberg_dither gray_2x2 DOT_MATRIX_PALETTE = Inr out
          \<and> rgb_color (pixels out ! 0 ! 0) \<noteq> (0, 0, 0))"
  by (simp add: gray_distances floyd_steinberg_gray_2x2)

text \<open>
  Claim C4, amended. On the 2 x 2 image of (128,128,128) with the palette
  [(0,0,0), (255,255,255)], \<^verbatim>\<open>floyd_steinberg_dither\<close> returns an image whose pixel (0, 0) is
  (255,255,255): the squared distances are 49152 to black and 48387 to white, there is no
  tie, and the nearest entry is white.
\<close>

theorem gray_2x2_first_pixel_white:
  "color_distance (128, 128, 128) (0, 0, 0) = 49152
   \<and> color_distance (128, 128, 128) (255, 255, 255) = 48387
   \<and> find_closest_color (128, 128, 128) DOT_MATRIX_PALETTE = Inr (255, 255, 255)
   \<and> (\<exists>out. floyd_steinberg_dither gray_2x2 DOT_MATRIX_PALETTE = Inr out
          \<and> rgb_color (pixels out ! 0 ! 0) = (255, 255, 255))"
proof -
  have "find_closest_color (128, 128, 128) DOT_MATRIX_PALETTE = Inr (255, 255, 255)"
    by code_simp
  then show ?thesis
    by (simp add: gray_distances floyd_steinberg_gray_2x2)
qed

text \<open>
  Claim C5, as stated: on the white 4 x 4 image, \<^verbatim>\<open>bayer_dither\<close> with the Game Boy palette
  gives the lightest entry (155,188,15) at every pixel. It fails at pixel (0, 0), where the
  output is (48,98,48).
\<close>

theorem bayer_white_not_uniform:
  "\<exists>out. bayer_dither white_4x4 GAMEBOY_PALETTE = Inr out
      \<and> rgb_color (pixels out ! 0 ! 0) = (48, 98, 48)
      \<and> rgb_color (pixels out ! 0 ! 0) \<noteq> (155, 188, 15)"
  by (simp add: bayer_white_4x4)

text \<open>
  Claim C5, amended. On the white 4 x 4 image, \<^verbatim>\<open>bayer_dither\<close> with the Game Boy palette
  gives the lightest entry (155,188,15) at thirteen pixels. At (x, y) = (0, 0) the Bayer
  weight is 0, the perturbed pixel is (127.5, 127.5, 127.5), and the output is (48,98,48);
  at (2, 0) and (2, 2) the output is (139,172,15).
\<close>

theorem bayer_white_4x4_pattern:
  "vclip (vadd_scalar (255, 255, 255)
       (fsub (fmul (bayer_matrix_4x4 ! 0 ! 0) 255) (255 / 2))) 0 255 = (255 / 2, 255 / 2, 255 / 2)
   \<and> find_closest_color (255 / 2, 255 / 2, 255 / 2) GAMEBOY_PALETTE = Inr (48, 98, 48)
   \<and> (\<exists>out. bayer_dither white_4x4 GAMEBOY_PALETTE = Inr out
          \<and> map (map rgb_color) (pixels out) =
              [[(48, 98, 48), (155, 188, 15), (139, 172, 15), (155, 188, 15)],
               [(155, 188, 15), (155, 188, 15), (155, 188, 15), (155, 188, 15)],
               [(155, 188, 15), (155, 188, 15), (139, 172, 15), (155, 188, 15)],
               [(155, 188, 15), (155, 188, 15), (155, 188, 15), (155, 188, 15)]])"
proof -
  have "vclip (vadd_scalar (255, 255, 255)
       (fsub (fmul (bayer_matrix_4x4 ! 0 ! 0) 255) (255 / 2))) 0 255 = (255 / 2, 255 / 2, 255 / 2)"
    by code_simp
  moreover have "find_closest_color (255 / 2, 255 / 2, 255 / 2) GAMEBOY_PALETTE = Inr (48, 98, 48)"
    by code_simp
  ultimately show ?thesis
    by (simp add: bayer_white_4x4)
qed

end
